theory Spec2Isabelle
  imports Main
begin

section \<open>JavaScript values\<close>

text \<open>
  Untrusted data (an API payload, a cache entry, an argument of unknown shape) is a
  JSON value. Numbers are modelled as integers; a missing property (JavaScript
  \<open>undefined\<close>) is \<open>None\<close> where a property is looked up.
  Strings are lists of 8-bit characters.
\<close>

datatype json =
    JNull
  | JBool bool
  | JNum int
  | JStr string
  | JArr "json list"
  | JObj "(string \<times> json) list"

text \<open>Truthiness, as tested by \<open>!x\<close> and \<open>a && b\<close>.\<close>

fun truthy :: "json \<Rightarrow> bool" where
  "truthy JNull = False"
| "truthy (JBool b) = b"
| "truthy (JNum i) = (i \<noteq> 0)"
| "truthy (JStr s) = (s \<noteq> [])"
| "truthy (JArr xs) = True"
| "truthy (JObj kvs) = True"

fun isArray :: "json \<Rightarrow> bool" where
  "isArray (JArr xs) = True"
| "isArray v = False"

definition digit_char :: "nat \<Rightarrow> char" where
  "digit_char d = ''0123456789'' ! d"

fun show_nat :: "nat \<Rightarrow> string" where
  "show_nat n =
     (if n < 10 then [digit_char n] else show_nat (n div 10) @ [digit_char (n mod 10)])"

declare show_nat.simps [simp del]

definition show_int :: "int \<Rightarrow> string" where
  "show_int i = (if i < 0 then CHR ''-'' # show_nat (nat (- i)) else show_nat (nat i))"

fun join_with :: "string \<Rightarrow> string list \<Rightarrow> string" where
  "join_with sep [] = []"
| "join_with sep [x] = x"
| "join_with sep (x # y # ys) = x @ sep @ join_with sep (y # ys)"

text \<open>
  \<open>String(v)\<close>: the string conversion applied to a thrown value that is not an Error.
  Integers are printed in decimal, as JavaScript prints those of magnitude below
  \<open>10^21\<close>; from there on JavaScript uses exponent notation, which is not modelled.
\<close>

fun js_String :: "json \<Rightarrow> string" where
  "js_String JNull = ''null''"
| "js_String (JBool b) = (if b then ''true'' else ''false'')"
| "js_String (JNum i) = show_int i"
| "js_String (JStr s) = s"
| "js_String (JArr xs) =
     join_with '','' (map (\<lambda>x. if x = JNull then [] else js_String x) xs)"
| "js_String (JObj kvs) = ''[object Object]''"

text \<open>
  \<open>String.prototype.trim\<close>: white space and line terminators are removed from both
  ends. Of the characters JavaScript strips, those that fit in 8 bits are listed.
\<close>

definition is_space :: "char \<Rightarrow> bool" where
  "is_space c = (c \<in> set [CHR 0x09, CHR 0x0A, CHR 0x0B, CHR 0x0C, CHR 0x0D, CHR 0x20, CHR 0xA0])"

definition trim :: "string \<Rightarrow> string" where
  "trim s = rev (dropWhile is_space (rev (dropWhile is_space s)))"

section \<open>Thrown values\<close>

text \<open>
  An Error instance is either a \<open>ZodError\<close>, which carries its issues (path and code),
  or any other Error, of which only the message is kept. JavaScript can throw any
  value: \<open>NonError\<close> is a thrown value for which \<open>instanceof Error\<close> is false.
\<close>

datatype issue_code = InvalidType | TooSmall | InvalidUrl

datatype issue = Issue "string list" issue_code

datatype js_error = ZodError "issue list" | PlainError string

datatype thrown = ErrorInst js_error | NonError json

fun issue_text :: "issue \<Rightarrow> string" where
  "issue_text (Issue path InvalidType) = join_with ''.'' path @ '': invalid_type''"
| "issue_text (Issue path TooSmall) = join_with ''.'' path @ '': too_small''"
| "issue_text (Issue path InvalidUrl) = join_with ''.'' path @ '': invalid_url''"

text \<open>
  \<open>error.message\<close>. The message of a ZodError is a rendering of its issues; the
  library's exact JSON layout is not reproduced, only that it is a function of the issues.
\<close>

fun message :: "js_error \<Rightarrow> string" where
  "message (ZodError issues) = join_with ''; '' (map issue_text issues)"
| "message (PlainError m) = m"

text \<open>\<open>error instanceof Error ? error : new Error(String(error))\<close>\<close>

fun as_Error :: "thrown \<Rightarrow> js_error" where
  "as_Error (ErrorInst e) = e"
| "as_Error (NonError v) = PlainError (js_String v)"

section \<open>Retry executor (src/utils/api-helper.ts, RetryHelper)\<close>

record RetryOptions =
  maxAttempts :: int
  baseDelay :: int
  maxDelay :: int

text \<open>
  The options are JavaScript numbers; they are modelled as integers, for which
  \<open>Math.pow\<close> and \<open>Math.min\<close> are exact.
\<close>

text \<open>
  What \<open>retryApiCall\<close> itself does besides running the operation: it invokes the
  operation (attempt index), logs a warning (operation name, attempt, delay, message),
  sleeps (milliseconds) and logs the final failure (operation name, maxAttempts, message).
\<close>

datatype retry_event =
    Invoked int
  | Warned string int int string
  | Slept int
  | GaveUp string int string

text \<open>
  The operation is an effectful computation over a state \<open>'s\<close>: it returns the value it
  resolves with (\<open>Inr\<close>) or the value it throws (\<open>Inl\<close>), and the new state.
  \<open>retry_loop\<close> is the \<open>for\<close> loop of \<open>retryApiCall\<close>, entered with the current
  \<open>attempt\<close> and \<open>lastError\<close>; the result is what the call resolves or rejects
  with, the final state and the events in order.
\<close>

function retry_loop ::
  "('s \<Rightarrow> (thrown + 'a) \<times> 's) \<Rightarrow> RetryOptions \<Rightarrow> string \<Rightarrow> int \<Rightarrow> js_error \<Rightarrow> 's
     \<Rightarrow> (thrown + 'a) \<times> 's \<times> retry_event list" where
  "retry_loop operation options operationName attempt lastError s =
     (if attempt \<le> maxAttempts options then
        (case operation s of
           (Inr v, s') \<Rightarrow> (Inr v, s', [Invoked attempt])
         | (Inl error, s') \<Rightarrow>
             (let lastError' = as_Error error in
              if attempt = maxAttempts options then
                (Inl (ErrorInst lastError'), s',
                 [Invoked attempt,
                  GaveUp operationName (maxAttempts options) (message lastError')])
              else
                (let delay = min (baseDelay options * 2 ^ nat (attempt - 1)) (maxDelay options);
                     (r, s'', evs) =
                       retry_loop operation options operationName (attempt + 1) lastError' s'
                 in (r, s'',
                     [Invoked attempt,
                      Warned operationName attempt delay (message lastError'),
                      Slept delay] @ evs))))
      else (Inl (ErrorInst lastError), s, []))"
  by pat_completeness auto
termination
  by (relation "measure (\<lambda>(operation, options, operationName, attempt, lastError, s).
                   nat (maxAttempts options + 1 - attempt))") auto

declare retry_loop.simps [simp del]

definition retryApiCall ::
  "('s \<Rightarrow> (thrown + 'a) \<times> 's) \<Rightarrow> RetryOptions \<Rightarrow> string \<Rightarrow> 's
     \<Rightarrow> (thrown + 'a) \<times> 's \<times> retry_event list" where
  "retryApiCall operation options operationName s =
     retry_loop operation options operationName 1 (PlainError ''Unknown error'') s"

text \<open>
  For stating properties of a run: the state after the first \<open>k\<close> invocations of the
  operation, and what the \<open>k\<close>-th invocation (counted from 1) returns or throws.
\<close>

fun state_after :: "('s \<Rightarrow> (thrown + 'a) \<times> 's) \<Rightarrow> 's \<Rightarrow> nat \<Rightarrow> 's" where
  "state_after operation s 0 = s"
| "state_after operation s (Suc k) = snd (operation (state_after operation s k))"

definition outcome :: "('s \<Rightarrow> (thrown + 'a) \<times> 's) \<Rightarrow> 's \<Rightarrow> nat \<Rightarrow> thrown + 'a" where
  "outcome operation s k = fst (operation (state_after operation s (k - 1)))"

text \<open>
  The events of one failed attempt that is followed by another one: the \<open>i\<close>-th
  invocation (counted from 0) of a loop entered at attempt \<open>a\<close> in state \<open>s\<close>.
\<close>

definition retry_round ::
  "('s \<Rightarrow> (thrown + 'a) \<times> 's) \<Rightarrow> RetryOptions \<Rightarrow> string \<Rightarrow> 's \<Rightarrow> int \<Rightarrow> nat
     \<Rightarrow> retry_event list" where
  "retry_round operation options operationName s a i =
     [Invoked (a + int i),
      Warned operationName (a + int i)
        (min (baseDelay options * 2 ^ nat (a + int i - 1)) (maxDelay options))
        (message (as_Error (projl (fst (operation (state_after operation s i)))))),
      Slept (min (baseDelay options * 2 ^ nat (a + int i - 1)) (maxDelay options))]"

section \<open>Schema validator (services/user.schemas)\<close>

record UserName =
  first :: string
  last' :: string

record UserLocation =
  city :: string
  country :: string

record UserPicture =
  large :: string

record User =
  name :: UserName
  location :: UserLocation
  picture :: UserPicture

record UserApiResponse =
  results :: "User list"

text \<open>
  A schema parses the value found at a path (\<open>None\<close> when the property is missing) into
  a value or a list of issues. The library runs the checks of a string schema in the
  order in which they were chained, each on the current value: in
  \<open>z.string().min(1).trim()\<close> the length check sees the string as given and the
  trimming comes after it.
\<close>

definition string_min1_trim :: "string list \<Rightarrow> json option \<Rightarrow> issue list + string" where
  "string_min1_trim path v =
     (case v of
        Some (JStr s) \<Rightarrow> if length s < 1 then Inl [Issue path TooSmall] else Inr (trim s)
      | _ \<Rightarrow> Inl [Issue path InvalidType])"

text \<open>
  \<open>z.string().url()\<close>. Whether a string parses as an absolute URL is decided by the
  platform's URL parser, which is taken as the parameter \<open>is_url\<close>.
\<close>

definition string_url :: "(string \<Rightarrow> bool) \<Rightarrow> string list \<Rightarrow> json option \<Rightarrow> issue list + string" where
  "string_url is_url path v =
     (case v of
        Some (JStr s) \<Rightarrow> if is_url s then Inr s else Inl [Issue path InvalidUrl]
      | _ \<Rightarrow> Inl [Issue path InvalidType])"

text \<open>The issues of all properties of an object (elements of an array) are collected.\<close>

fun both :: "issue list + 'a \<Rightarrow> issue list + 'b \<Rightarrow> issue list + ('a \<times> 'b)" where
  "both (Inr a) (Inr b) = Inr (a, b)"
| "both (Inl i) (Inr b) = Inl i"
| "both (Inr a) (Inl j) = Inl j"
| "both (Inl i) (Inl j) = Inl (i @ j)"

definition UserNameSchema :: "string list \<Rightarrow> json option \<Rightarrow> issue list + UserName" where
  "UserNameSchema path v =
     (case v of
        Some (JObj kvs) \<Rightarrow>
          (case both (string_min1_trim (path @ [''first'']) (map_of kvs ''first''))
                     (string_min1_trim (path @ [''last'']) (map_of kvs ''last'')) of
             Inl issues \<Rightarrow> Inl issues
           | Inr (f, l) \<Rightarrow> Inr \<lparr>first = f, last' = l\<rparr>)
      | _ \<Rightarrow> Inl [Issue path InvalidType])"

definition UserLocationSchema :: "string list \<Rightarrow> json option \<Rightarrow> issue list + UserLocation" where
  "UserLocationSchema path v =
     (case v of
        Some (JObj kvs) \<Rightarrow>
          (case both (string_min1_trim (path @ [''city'']) (map_of kvs ''city''))
                     (string_min1_trim (path @ [''country'']) (map_of kvs ''country'')) of
             Inl issues \<Rightarrow> Inl issues
           | Inr (c, k) \<Rightarrow> Inr \<lparr>city = c, country = k\<rparr>)
      | _ \<Rightarrow> Inl [Issue path InvalidType])"

definition UserPictureSchema ::
  "(string \<Rightarrow> bool) \<Rightarrow> string list \<Rightarrow> json option \<Rightarrow> issue list + UserPicture" where
  "UserPictureSchema is_url path v =
     (case v of
        Some (JObj kvs) \<Rightarrow>
          (case string_url is_url (path @ [''large'']) (map_of kvs ''large'') of
             Inl issues \<Rightarrow> Inl issues
           | Inr l \<Rightarrow> Inr \<lparr>large = l\<rparr>)
      | _ \<Rightarrow> Inl [Issue path InvalidType])"

definition UserSchema ::
  "(string \<Rightarrow> bool) \<Rightarrow> string list \<Rightarrow> json option \<Rightarrow> issue list + User" where
  "UserSchema is_url path v =
     (case v of
        Some (JObj kvs) \<Rightarrow>
          (case both (UserNameSchema (path @ [''name'']) (map_of kvs ''name''))
                (both (UserLocationSchema (path @ [''location'']) (map_of kvs ''location''))
                      (UserPictureSchema is_url (path @ [''picture'']) (map_of kvs ''picture''))) of
             Inl issues \<Rightarrow> Inl issues
           | Inr (n, l, p) \<Rightarrow> Inr \<lparr>name = n, location = l, picture = p\<rparr>)
      | _ \<Rightarrow> Inl [Issue path InvalidType])"

text \<open>\<open>z.array(element).min(1)\<close>\<close>

fun parse_elements ::
  "(string list \<Rightarrow> json option \<Rightarrow> issue list + 'a) \<Rightarrow> string list \<Rightarrow> nat \<Rightarrow> json list
     \<Rightarrow> issue list + 'a list" where
  "parse_elements element path i [] = Inr []"
| "parse_elements element path i (x # xs) =
     (case both (element (path @ [show_nat i]) (Some x))
                (parse_elements element path (Suc i) xs) of
        Inl issues \<Rightarrow> Inl issues
      | Inr (y, ys) \<Rightarrow> Inr (y # ys))"

definition array_min1 ::
  "(string list \<Rightarrow> json option \<Rightarrow> issue list + 'a) \<Rightarrow> string list \<Rightarrow> json option
     \<Rightarrow> issue list + 'a list" where
  "array_min1 element path v =
     (case v of
        Some (JArr xs) \<Rightarrow>
          (case both (if length xs < 1 then Inl [Issue path TooSmall] else Inr ())
                     (parse_elements element path 0 xs) of
             Inl issues \<Rightarrow> Inl issues
           | Inr (u, ys) \<Rightarrow> Inr ys)
      | _ \<Rightarrow> Inl [Issue path InvalidType])"

definition UsersArraySchema ::
  "(string \<Rightarrow> bool) \<Rightarrow> string list \<Rightarrow> json option \<Rightarrow> issue list + User list" where
  "UsersArraySchema is_url = array_min1 (UserSchema is_url)"

definition UserApiResponseSchema ::
  "(string \<Rightarrow> bool) \<Rightarrow> string list \<Rightarrow> json option \<Rightarrow> issue list + UserApiResponse" where
  "UserApiResponseSchema is_url path v =
     (case v of
        Some (JObj kvs) \<Rightarrow>
          (case array_min1 (UserSchema is_url) (path @ [''results'']) (map_of kvs ''results'') of
             Inl issues \<Rightarrow> Inl issues
           | Inr us \<Rightarrow> Inr \<lparr>results = us\<rparr>)
      | _ \<Rightarrow> Inl [Issue path InvalidType])"

text \<open>\<open>schema.parse(data)\<close> returns the parsed value or throws a ZodError.\<close>

definition parse :: "(string list \<Rightarrow> json option \<Rightarrow> issue list + 'a) \<Rightarrow> json \<Rightarrow> thrown + 'a" where
  "parse schema data =
     (case schema [] (Some data) of
        Inl issues \<Rightarrow> Inl (ErrorInst (ZodError issues))
      | Inr v \<Rightarrow> Inr v)"

definition validateUser :: "(string \<Rightarrow> bool) \<Rightarrow> json \<Rightarrow> thrown + User" where
  "validateUser is_url data = parse (UserSchema is_url) data"

definition validateApiResponse :: "(string \<Rightarrow> bool) \<Rightarrow> json \<Rightarrow> thrown + UserApiResponse" where
  "validateApiResponse is_url data = parse (UserApiResponseSchema is_url) data"

definition validateUsers :: "(string \<Rightarrow> bool) \<Rightarrow> json \<Rightarrow> thrown + User list" where
  "validateUsers is_url data = parse (UsersArraySchema is_url) data"

text \<open>
  \<open>UserValidator.safeValidateUsers\<close> (dist): \<open>{success: true, data}\<close> is \<open>Inr data\<close>,
  \<open>{success: false, error}\<close> is \<open>Inl error\<close>.
\<close>

definition safeValidateUsers :: "(string \<Rightarrow> bool) \<Rightarrow> json \<Rightarrow> string + User list" where
  "safeValidateUsers is_url data =
     (case UsersArraySchema is_url [] (Some data) of
        Inr d \<Rightarrow> Inr d
      | Inl issues \<Rightarrow> Inl (''Users validation failed: '' @ message (ZodError issues)))"

text \<open>The object that a successful parse returns, as a JavaScript value.\<close>

definition json_of_User :: "User \<Rightarrow> json" where
  "json_of_User u =
     JObj [(''name'', JObj [(''first'', JStr (first (name u))), (''last'', JStr (last' (name u)))]),
           (''location'', JObj [(''city'', JStr (city (location u))),
                                (''country'', JStr (country (location u)))]),
           (''picture'', JObj [(''large'', JStr (large (picture u)))])]"

definition getFullName :: "User \<Rightarrow> string" where
  "getFullName u = first (name u) @ '' '' @ last' (name u)"

definition getLocationQuery :: "User \<Rightarrow> string" where
  "getLocationQuery u = city (location u) @ '', '' @ country (location u)"

text \<open>
  \<open>UserUtils.getFullName\<close> and \<open>UserUtils.getLocationQuery\<close> (dist) validate their
  argument again before formatting it.
\<close>

definition UserUtils_getFullName :: "(string \<Rightarrow> bool) \<Rightarrow> json \<Rightarrow> thrown + string" where
  "UserUtils_getFullName is_url u =
     (case validateUser is_url u of
        Inl e \<Rightarrow> Inl e
      | Inr validatedUser \<Rightarrow> Inr (first (name validatedUser) @ '' '' @ last' (name validatedUser)))"

definition UserUtils_getLocationQuery :: "(string \<Rightarrow> bool) \<Rightarrow> json \<Rightarrow> thrown + string" where
  "UserUtils_getLocationQuery is_url u =
     (case validateUser is_url u of
        Inl e \<Rightarrow> Inl e
      | Inr validatedUser \<Rightarrow>
          Inr (city (location validatedUser) @ '', '' @ country (location validatedUser)))"

section \<open>User-weather converter (converters/user-weather-converter)\<close>

text \<open>
  Coordinates and weather readings are passed through unchanged; their numbers are
  modelled as integers. The geocoding and weather services are external: they are the
  parameters \<open>getCoordinates\<close> and \<open>getCurrentWeather\<close>, which return a value or throw.
\<close>

record GeocodingResult =
  lat :: int
  lng :: int

record WeatherData =
  temperature :: int
  condition :: string
  humidity :: int
  stale :: bool

record UserWeatherData =
  user :: json
  weather :: "WeatherData option"

text \<open>
  The TypeScript source. The \<open>try\<close> block is the inner \<open>case\<close>; the \<open>catch\<close> block
  logs and returns the argument \<open>usr\<close> it was called with.
\<close>

definition convertUserToUserWeatherData ::
  "(string \<Rightarrow> bool) \<Rightarrow> (string \<Rightarrow> thrown + GeocodingResult) \<Rightarrow> (int \<Rightarrow> int \<Rightarrow> thrown + WeatherData)
     \<Rightarrow> json \<Rightarrow> thrown + UserWeatherData" where
  "convertUserToUserWeatherData is_url getCoordinates getCurrentWeather usr =
     (case
        (case validateUser is_url usr of
           Inl e \<Rightarrow> Inl e
         | Inr validatedUser \<Rightarrow>
             (case getCoordinates (getLocationQuery validatedUser) of
                Inl e \<Rightarrow> Inl e
              | Inr geocodingResult \<Rightarrow>
                  (case getCurrentWeather (lat geocodingResult) (lng geocodingResult) of
                     Inl e \<Rightarrow> Inl e
                   | Inr w \<Rightarrow> Inr \<lparr>user = json_of_User validatedUser, weather = Some w\<rparr>)))
      of
        Inr r \<Rightarrow> Inr r
      | Inl error \<Rightarrow> Inr \<lparr>user = usr, weather = None\<rparr>)"

text \<open>
  The compiled variant (dist). Its \<open>try\<close> block formats log lines with
  \<open>UserUtils.getFullName\<close> and builds the query with \<open>UserUtils.getLocationQuery\<close>,
  which validate again and may throw; so does the log line of the \<open>catch\<close> block
  for an error that is not a ZodError.
\<close>

definition convertUserToUserWeatherData_dist ::
  "(string \<Rightarrow> bool) \<Rightarrow> (string \<Rightarrow> thrown + GeocodingResult) \<Rightarrow> (int \<Rightarrow> int \<Rightarrow> thrown + WeatherData)
     \<Rightarrow> json \<Rightarrow> thrown + UserWeatherData" where
  "convertUserToUserWeatherData_dist is_url getCoordinates getCurrentWeather usr =
     (case
        (case validateUser is_url usr of
           Inl e \<Rightarrow> Inl e
         | Inr validatedUser \<Rightarrow>
             (case UserUtils_getFullName is_url (json_of_User validatedUser) of
                Inl e \<Rightarrow> Inl e
              | Inr fullName \<Rightarrow>
                  (case UserUtils_getLocationQuery is_url (json_of_User validatedUser) of
                     Inl e \<Rightarrow> Inl e
                   | Inr locationQuery \<Rightarrow>
                       (case getCoordinates locationQuery of
                          Inl e \<Rightarrow> Inl e
                        | Inr geocodingResult \<Rightarrow>
                            (case getCurrentWeather (lat geocodingResult) (lng geocodingResult) of
                               Inl e \<Rightarrow> Inl e
                             | Inr w \<Rightarrow>
                                 (case UserUtils_getFullName is_url (json_of_User validatedUser) of
                                    Inl e \<Rightarrow> Inl e
                                  | Inr fullName' \<Rightarrow>
                                      Inr \<lparr>user = json_of_User validatedUser,
                                           weather = Some w\<rparr>))))))
      of
        Inr r \<Rightarrow> Inr r
      | Inl error \<Rightarrow>
          (case error of
             ErrorInst (ZodError issues) \<Rightarrow> Inr \<lparr>user = usr, weather = None\<rparr>
           | _ \<Rightarrow>
               (case UserUtils_getFullName is_url usr of
                  Inl e \<Rightarrow> Inl e
                | Inr fullName \<Rightarrow> Inr \<lparr>user = usr, weather = None\<rparr>)))"

text \<open>
  \<open>Promise.all\<close> resolves with all the results in the order of its argument, or rejects
  with a rejection of one of them (here: the first in that order).
\<close>

fun promise_all :: "(thrown + 'a) list \<Rightarrow> thrown + 'a list" where
  "promise_all [] = Inr []"
| "promise_all (Inl e # ps) = Inl e"
| "promise_all (Inr r # ps) = (case promise_all ps of Inl e \<Rightarrow> Inl e | Inr rs \<Rightarrow> Inr (r # rs))"

text \<open>The batch conversion exists in the compiled variant (dist) only.\<close>

definition convertUsersToUserWeatherData ::
  "(string \<Rightarrow> bool) \<Rightarrow> (string \<Rightarrow> thrown + GeocodingResult) \<Rightarrow> (int \<Rightarrow> int \<Rightarrow> thrown + WeatherData)
     \<Rightarrow> json \<Rightarrow> thrown + UserWeatherData list" where
  "convertUsersToUserWeatherData is_url getCoordinates getCurrentWeather users =
     (case
        (case validateUsers is_url users of
           Inl e \<Rightarrow> Inl e
         | Inr validatedUsers \<Rightarrow>
             promise_all
               (map (\<lambda>u. convertUserToUserWeatherData_dist is_url getCoordinates getCurrentWeather
                            (json_of_User u))
                    validatedUsers))
      of
        Inr rs \<Rightarrow> Inr rs
      | Inl error \<Rightarrow>
          (case error of
             ErrorInst (ZodError issues) \<Rightarrow>
               Inl (ErrorInst (PlainError (''Invalid users array: '' @ message (ZodError issues))))
           | _ \<Rightarrow> Inl error))"

section \<open>Cache store and fetch helper\<close>

text \<open>
  The world the user service acts on: the cache entry under the users key (\<open>None\<close>
  when there is none), the number of HTTP requests sent so far, and the cache writes,
  cache removals and requests in the order in which they happened.
\<close>

datatype io_event = CacheRemoved | CacheWritten json | Fetched string

record world =
  cache :: "json option"
  fetches :: nat
  trace :: "io_event list"

text \<open>
  Modelled from the spec: the class \<open>CacheManager\<close> (utils/cache-manager) is not among
  the sources. The spec gives its contract as \<open>get(key) -> T | null\<close>,
  \<open>set(key, value) -> void\<close> and \<open>remove(key) -> void\<close>; only the users key is used.
\<close>

definition getItem :: "world \<Rightarrow> json" where
  "getItem w = (case cache w of None \<Rightarrow> JNull | Some v \<Rightarrow> v)"

definition setItem :: "json \<Rightarrow> world \<Rightarrow> world" where
  "setItem v w = w\<lparr>cache := Some v, trace := trace w @ [CacheWritten v]\<rparr>"

definition removeItem :: "world \<Rightarrow> world" where
  "removeItem w = w\<lparr>cache := None, trace := trace w @ [CacheRemoved]\<rparr>"

text \<open>
  A response of the platform's \<open>fetch\<close>: \<open>ok\<close>, \<open>status\<close>, \<open>statusText\<close>, and what
  \<open>response.json()\<close> resolves with or throws. The network is the parameter
  \<open>fetch\<close>: the outcome of a request for a URL, given the number of requests sent before.
\<close>

datatype http_response = Response bool nat string "thrown + json"

definition fetchData ::
  "(string \<Rightarrow> nat \<Rightarrow> thrown + http_response) \<Rightarrow> string \<Rightarrow> string \<Rightarrow> world
     \<Rightarrow> (thrown + json) \<times> world" where
  "fetchData fetch url errorMessage w =
     (let w' = w\<lparr>fetches := Suc (fetches w), trace := trace w @ [Fetched url]\<rparr> in
      case
        (case fetch url (fetches w) of
           Inl e \<Rightarrow> Inl e
         | Inr (Response ok status statusText body) \<Rightarrow>
             if \<not> ok then
               Inl (ErrorInst (PlainError
                      (errorMessage @ '': '' @ ''HTTP '' @ show_nat status @ '': '' @ statusText)))
             else body)
      of
        Inr data \<Rightarrow> (Inr data, w')
      | Inl error \<Rightarrow> (Inl (ErrorInst (as_Error error)), w'))"

section \<open>User service (services/user-service)\<close>

text \<open>
  What the service takes from outside: the URL parser (\<open>url_ok\<close>), the
  platform's \<open>fetch\<close> (\<open>network\<close>), and the constants
  \<open>APP_CONSTANTS.DEFAULT_RETRY_ATTEMPTS\<close> and \<open>APP_CONSTANTS.DEFAULT_RETRY_DELAY\<close>
  (config/constants is not among the sources).
\<close>

record environment =
  url_ok :: "string \<Rightarrow> bool"
  network :: "string \<Rightarrow> nat \<Rightarrow> thrown + http_response"
  DEFAULT_RETRY_ATTEMPTS :: int
  DEFAULT_RETRY_DELAY :: int

text \<open>The \<open>catch\<close> block of the operation that \<open>fetchFreshUsers\<close> retries.\<close>

fun fetchFreshUsers_catch :: "thrown \<Rightarrow> thrown" where
  "fetchFreshUsers_catch (ErrorInst (ZodError issues)) =
     ErrorInst (PlainError (''Invalid user data from API: '' @ message (ZodError issues)))"
| "fetchFreshUsers_catch error = error"

text \<open>The operation that \<open>fetchFreshUsers\<close> retries; \<open>count\<close> is a number of users.\<close>

definition fetchFreshUsers_operation ::
  "environment \<Rightarrow> nat \<Rightarrow> world \<Rightarrow> (thrown + User list) \<times> world" where
  "fetchFreshUsers_operation env count w =
     (let url = ''https://randomuser.me/api/?results='' @ show_nat count @
                ''&inc=name,location,picture'' in
      case fetchData (network env) url ''Failed to fetch users from API'' w of
        (Inl error, w') \<Rightarrow> (Inl (fetchFreshUsers_catch error), w')
      | (Inr rawData, w') \<Rightarrow>
          (case validateApiResponse (url_ok env) rawData of
             Inl error \<Rightarrow> (Inl (fetchFreshUsers_catch error), w')
           | Inr validatedResponse \<Rightarrow>
               (let validatedUsers = results validatedResponse in
                (Inr validatedUsers, setItem (JArr (map json_of_User validatedUsers)) w'))))"

definition fetchFreshUsers ::
  "environment \<Rightarrow> nat \<Rightarrow> world \<Rightarrow> (thrown + User list) \<times> world \<times> retry_event list" where
  "fetchFreshUsers env count w =
     retryApiCall (fetchFreshUsers_operation env count)
       \<lparr>maxAttempts = DEFAULT_RETRY_ATTEMPTS env,
        baseDelay = DEFAULT_RETRY_DELAY env,
        maxDelay = 5000\<rparr>
       ''User API with validation''
       (removeItem w)"

text \<open>
  Reading the property \<open>k\<close> (here \<open>name\<close> or \<open>location\<close>) of an array element: it
  throws a TypeError on \<open>null\<close>, and is \<open>undefined\<close> on a value that has no such property.
\<close>

fun get_prop :: "json \<Rightarrow> string \<Rightarrow> thrown + json option" where
  "get_prop JNull k = Inl (ErrorInst (PlainError ''Cannot read properties of null''))"
| "get_prop (JObj kvs) k = Inr (map_of kvs k)"
| "get_prop v k = Inr None"

fun truthy_prop :: "json option \<Rightarrow> bool" where
  "truthy_prop None = False"
| "truthy_prop (Some v) = truthy v"

text \<open>
  \<open>rawCached.length > 0 && rawCached[0].name && rawCached[0].location\<close>, the
  condition of the TypeScript \<open>getCachedUsers\<close>, evaluated from left to right.
\<close>

definition looks_like_users :: "json list \<Rightarrow> thrown + bool" where
  "looks_like_users rawCached =
     (if \<not> length rawCached > 0 then Inr False
      else
        (case get_prop (rawCached ! 0) ''name'' of
           Inl e \<Rightarrow> Inl e
         | Inr n \<Rightarrow>
             if \<not> truthy_prop n then Inr False
             else
               (case get_prop (rawCached ! 0) ''location'' of
                  Inl e \<Rightarrow> Inl e
                | Inr l \<Rightarrow> Inr (truthy_prop l))))"

text \<open>
  The TypeScript source: the cached array is returned as it was read. A value thrown
  inside the \<open>try\<close> block is caught, and the entry is removed.
\<close>

definition getCachedUsers :: "world \<Rightarrow> json list option \<times> world" where
  "getCachedUsers w =
     (let rawCached = getItem w in
      if \<not> truthy rawCached \<or> \<not> isArray rawCached then (None, w)
      else
        (case rawCached of
           JArr xs \<Rightarrow>
             (case looks_like_users xs of
                Inr True \<Rightarrow> (Some xs, w)
              | Inr False \<Rightarrow> (None, removeItem w)
              | Inl error \<Rightarrow> (None, removeItem w))
         | _ \<Rightarrow> (None, w)))"

text \<open>The compiled variant (dist): the cached value is validated against the schema.\<close>

definition getCachedUsers_dist :: "(string \<Rightarrow> bool) \<Rightarrow> world \<Rightarrow> User list option \<times> world" where
  "getCachedUsers_dist is_url w =
     (let rawCached = getItem w in
      if \<not> truthy rawCached then (None, w)
      else
        (case safeValidateUsers is_url rawCached of
           Inl error \<Rightarrow> (None, removeItem w)
         | Inr validatedUsers \<Rightarrow> (Some validatedUsers, w)))"

text \<open>
  \<open>getUsers\<close> (TypeScript source). What it returns is either a slice of the cached
  array or the users of a fresh fetch, as JavaScript values.
\<close>

definition getUsers ::
  "environment \<Rightarrow> nat \<Rightarrow> world \<Rightarrow> (thrown + json list) \<times> world \<times> retry_event list" where
  "getUsers env count w =
     (case getCachedUsers w of
        (cachedUsers, w1) \<Rightarrow>
          if cachedUsers \<noteq> None \<and> length (the cachedUsers) \<ge> count then
            (Inr (take count (the cachedUsers)), w1, [])
          else
            (case fetchFreshUsers env count w1 of
               (Inl e, w2, evs) \<Rightarrow> (Inl e, w2, evs)
             | (Inr us, w2, evs) \<Rightarrow> (Inr (map json_of_User us), w2, evs)))"

section \<open>Sample inputs\<close>

text \<open>
  Concrete operations and options at which the theorems below are instantiated. The
  state of a sample operation counts its invocations.
\<close>

definition sample_options :: RetryOptions where
  "sample_options = \<lparr>maxAttempts = 3, baseDelay = 100, maxDelay = 5000\<rparr>"

definition no_attempts :: RetryOptions where
  "no_attempts = \<lparr>maxAttempts = 0, baseDelay = 100, maxDelay = 5000\<rparr>"

definition fails_twice :: "nat \<Rightarrow> (thrown + string) \<times> nat" where
  "fails_twice calls =
     (if calls < 2 then Inl (ErrorInst (PlainError ''unavailable'')) else Inr ''done'', Suc calls)"

definition throws_text :: "nat \<Rightarrow> (thrown + string) \<times> nat" where
  "throws_text calls = (Inl (NonError (JStr ''boom'')), Suc calls)"

definition throws_zod :: "nat \<Rightarrow> (thrown + string) \<times> nat" where
  "throws_zod calls = (Inl (ErrorInst (ZodError [Issue [''results''] TooSmall])), Suc calls)"

text \<open>
  For stating properties of raw input: the value found by following property names from
  an object, and the string found there (\<open>None\<close> when a property on the way is missing
  or the value is not a string).
\<close>

fun lookup_path :: "json \<Rightarrow> string list \<Rightarrow> json option" where
  "lookup_path v [] = Some v"
| "lookup_path (JObj kvs) (k # ks) =
     (case map_of kvs k of None \<Rightarrow> None | Some v \<Rightarrow> lookup_path v ks)"
| "lookup_path v (k # ks) = None"

definition string_at :: "json \<Rightarrow> string list \<Rightarrow> string option" where
  "string_at data path = (case lookup_path data path of Some (JStr s) \<Rightarrow> Some s | _ \<Rightarrow> None)"

text \<open>Sample inputs for the validator: a URL check and raw user objects.\<close>

definition http_url :: "string \<Rightarrow> bool" where
  "http_url s = (take 8 s = ''https://'' \<and> 8 < length s \<or> take 7 s = ''http://'' \<and> 7 < length s)"

definition raw_user :: "string \<Rightarrow> string \<Rightarrow> string \<Rightarrow> string \<Rightarrow> string \<Rightarrow> json" where
  "raw_user f l c k p =
     JObj [(''name'', JObj [(''first'', JStr f), (''last'', JStr l)]),
           (''location'', JObj [(''city'', JStr c), (''country'', JStr k)]),
           (''picture'', JObj [(''large'', JStr p)])]"

definition blank_first_name :: json where
  "blank_first_name = raw_user '' '' ''Doe'' ''Paris'' ''France'' ''https://example.org/1.jpg''"

definition padded_user :: json where
  "padded_user = raw_user ''  John  '' '' Doe '' ''New York  '' ''  United States''
                   ''https://example.org/1.jpg''"

text \<open>Sample geocoding and weather services.\<close>

definition geocoder_sample :: "string \<Rightarrow> thrown + GeocodingResult" where
  "geocoder_sample q =
     (if q = ''Atlantis, Nowhere'' then Inl (ErrorInst (PlainError ''Location not found''))
      else Inr \<lparr>lat = 40, lng = - 74\<rparr>)"

definition geocoder_down :: "string \<Rightarrow> thrown + GeocodingResult" where
  "geocoder_down q = Inl (ErrorInst (PlainError ''Geocoding unavailable''))"

definition weather_sunny :: "int \<Rightarrow> int \<Rightarrow> thrown + WeatherData" where
  "weather_sunny la lo = Inr \<lparr>temperature = 21, condition = ''Sunny'', humidity = 40, stale = False\<rparr>"

definition blank_validated :: User where
  "blank_validated = \<lparr>name = \<lparr>first = [], last' = ''Doe''\<rparr>,
                      location = \<lparr>city = ''Paris'', country = ''France''\<rparr>,
                      picture = \<lparr>large = ''https://example.org/1.jpg''\<rparr>\<rparr>"

definition one_invalid_user :: json where
  "one_invalid_user =
     JArr [raw_user ''Alice'' ''Johnson'' ''London'' ''United Kingdom'' ''https://example.org/2.jpg'',
           JObj [(''name'', JStr ''Bob'')]]"

definition john_doe :: User where
  "john_doe = \<lparr>name = \<lparr>first = ''John'', last' = ''Doe''\<rparr>,
               location = \<lparr>city = ''New York'', country = ''United States''\<rparr>,
               picture = \<lparr>large = ''https://example.org/1.jpg''\<rparr>\<rparr>"

definition three_users :: json where
  "three_users =
     JArr [raw_user ''Alice'' ''Johnson'' ''London'' ''United Kingdom'' ''https://example.org/2.jpg'',
           raw_user ''Bob'' ''Smith'' ''Atlantis'' ''Nowhere'' ''https://example.org/3.jpg'',
           raw_user ''Carol'' ''Jones'' ''Toronto'' ''Canada'' ''https://example.org/4.jpg'']"

text \<open>
  Sample worlds for the user service: a network on which every request fails, a cache
  entry that looks like users but is not valid, and a valid entry.
\<close>

definition network_down :: "string \<Rightarrow> nat \<Rightarrow> thrown + http_response" where
  "network_down url n = Inl (ErrorInst (PlainError ''Failed to fetch''))"

definition sample_env :: environment where
  "sample_env = \<lparr>url_ok = http_url, network = network_down,
                  DEFAULT_RETRY_ATTEMPTS = 3, DEFAULT_RETRY_DELAY = 1000\<rparr>"

definition world_with :: "json \<Rightarrow> world" where
  "world_with v = \<lparr>cache = Some v, fetches = 0, trace = []\<rparr>"

definition corrupted_entry :: json where
  "corrupted_entry = JArr [JObj [(''name'', JNum 1), (''location'', JNum 1)]]"

definition valid_entry :: json where
  "valid_entry = JArr [raw_user ''John'' ''Doe'' ''New York'' ''United States''
                         ''https://example.org/1.jpg'']"

section \<open>Retry executor: properties\<close>

lemma state_after_shift:
  "state_after operation s (Suc k) = state_after operation (snd (operation s)) k"
  by (induction k) simp_all

text \<open>
  A loop entered at an attempt \<open>a\<close> that is still within the budget makes \<open>m + 1\<close>
  invocations for some \<open>m\<close>: the first \<open>m\<close> fail and are each followed by a warning and
  a sleep, and the last one succeeds or is attempt \<open>maxAttempts\<close>.
\<close>

lemma retry_loop_char:
  "a \<le> maxAttempts options \<Longrightarrow>
   \<exists>m. a + int m \<le> maxAttempts options \<and>
       (\<forall>i<m. isl (fst (operation (state_after operation s i)))) \<and>
       (a + int m < maxAttempts options \<longrightarrow> \<not> isl (fst (operation (state_after operation s m)))) \<and>
       retry_loop operation options operationName a lastError s =
         ((case fst (operation (state_after operation s m)) of
             Inr v \<Rightarrow> Inr v | Inl e \<Rightarrow> Inl (ErrorInst (as_Error e))),
          state_after operation s (Suc m),
          concat (map (retry_round operation options operationName s a) [0..<m]) @
          Invoked (a + int m) #
          (case fst (operation (state_after operation s m)) of
             Inr v \<Rightarrow> [] | Inl e \<Rightarrow> [GaveUp operationName (maxAttempts options) (message (as_Error e))]))"
proof (induction "nat (maxAttempts options - a)" arbitrary: a s lastError)
  case 0
  then have eq: "a = maxAttempts options" by simp
  show ?case
    apply (rule exI [of _ 0])
    using eq by (simp add: retry_loop.simps Let_def split: prod.splits sum.splits)
next
  case (Suc n)
  obtain r s' where op: "operation s = (r, s')" by (cases "operation s")
  show ?case
  proof (cases r)
    case (Inr v)
    show ?thesis
      apply (rule exI [of _ 0])
      using Suc.prems op Inr by (simp add: retry_loop.simps)
  next
    case (Inl e)
    from Suc.hyps(2) have lt: "a < maxAttempts options" by simp
    have n: "n = nat (maxAttempts options - (a + 1))" using Suc.hyps(2) by simp
    have le: "a + 1 \<le> maxAttempts options" using lt by simp
    from Suc.hyps(1) [OF n le, of s' "as_Error e"]
    obtain m where m: "a + 1 + int m \<le> maxAttempts options"
      "\<forall>i<m. isl (fst (operation (state_after operation s' i)))"
      "a + 1 + int m < maxAttempts options \<longrightarrow> \<not> isl (fst (operation (state_after operation s' m)))"
      "retry_loop operation options operationName (a + 1) (as_Error e) s' =
         ((case fst (operation (state_after operation s' m)) of
             Inr v \<Rightarrow> Inr v | Inl e \<Rightarrow> Inl (ErrorInst (as_Error e))),
          state_after operation s' (Suc m),
          concat (map (retry_round operation options operationName s' (a + 1)) [0..<m]) @
          Invoked (a + 1 + int m) #
          (case fst (operation (state_after operation s' m)) of
             Inr v \<Rightarrow> [] | Inl e \<Rightarrow> [GaveUp operationName (maxAttempts options) (message (as_Error e))]))"
      by blast
    have s': "s' = snd (operation s)" using op by simp
    have shift: "\<And>k. state_after operation s' k = state_after operation s (Suc k)"
      unfolding s' by (simp only: state_after_shift)
    have round: "\<And>i. retry_round operation options operationName s' (a + 1) i =
                     retry_round operation options operationName s a (Suc i)"
      by (simp add: retry_round_def shift add.commute add.left_commute del: state_after.simps)
    have map_eq: "map (retry_round operation options operationName s a) [0..<Suc m] =
        retry_round operation options operationName s a 0 #
        map (retry_round operation options operationName s' (a + 1)) [0..<m]"
      by (simp add: upt_conv_Cons [of 0 "Suc m"] round map_Suc_upt [symmetric] del: upt_Suc)
    have all: "\<forall>i<Suc m. isl (fst (operation (state_after operation s i)))"
    proof (intro allI impI)
      fix i assume "i < Suc m"
      show "isl (fst (operation (state_after operation s i)))"
      proof (cases i)
        case 0 then show ?thesis using op Inl by simp
      next
        case (Suc j)
        with \<open>i < Suc m\<close> have "j < m" by simp
        with m(2) have "isl (fst (operation (state_after operation s' j)))" by blast
        then show ?thesis unfolding shift Suc .
      qed
    qed
    show ?thesis
      apply (rule exI [of _ "Suc m"])
      apply (intro conjI)
      subgoal using m(1) by simp
      subgoal using all .
      subgoal using m(3) unfolding shift by (simp add: add.commute add.left_commute del: state_after.simps)
      subgoal
        apply (subst retry_loop.simps)
        apply (subst map_eq)
        using lt op Inl m(4) unfolding shift
        apply (simp add: retry_round_def Let_def add.commute add.left_commute del: state_after.simps(2))
        done
      done
  qed
qed

lemma retry_round_first:
  "retry_round operation options operationName s 1 i =
     [Invoked (int (Suc i)),
      Warned operationName (int (Suc i))
        (min (baseDelay options * 2 ^ (Suc i - 1)) (maxDelay options))
        (message (as_Error (projl (outcome operation s (Suc i))))),
      Slept (min (baseDelay options * 2 ^ (Suc i - 1)) (maxDelay options))]"
  by (simp add: retry_round_def outcome_def)

text \<open>
  C2. With \<open>maxAttempts \<ge> 1\<close> the operation is invoked \<open>n\<close> times for some
  \<open>1 \<le> n \<le> maxAttempts\<close>, as attempts \<open>1..n\<close>: attempts \<open>1..n-1\<close> fail, and attempt \<open>n\<close>
  succeeds or is attempt \<open>maxAttempts\<close>. The events are, for each failed attempt
  \<open>k < n\<close> in turn, the invocation, a warning and one sleep of exactly
  \<open>min (baseDelay * 2^(k-1)) maxDelay\<close>, and then invocation \<open>n\<close>. If attempt \<open>n\<close>
  succeeds, its result is returned and nothing else happens.
\<close>

theorem retry_backoff_schedule:
  assumes "1 \<le> maxAttempts options"
  shows "\<exists>n. 1 \<le> n \<and> int n \<le> maxAttempts options \<and>
           (\<forall>k. 1 \<le> k \<and> k < n \<longrightarrow> isl (outcome operation s k)) \<and>
           (int n < maxAttempts options \<longrightarrow> \<not> isl (outcome operation s n)) \<and>
           retryApiCall operation options operationName s =
             ((case outcome operation s n of
                 Inr v \<Rightarrow> Inr v | Inl e \<Rightarrow> Inl (ErrorInst (as_Error e))),
              state_after operation s n,
              concat (map (\<lambda>k. [Invoked (int k),
                                Warned operationName (int k)
                                  (min (baseDelay options * 2 ^ (k - 1)) (maxDelay options))
                                  (message (as_Error (projl (outcome operation s k)))),
                                Slept (min (baseDelay options * 2 ^ (k - 1)) (maxDelay options))])
                          [1..<n]) @
              Invoked (int n) #
              (case outcome operation s n of
                 Inr v \<Rightarrow> []
               | Inl e \<Rightarrow> [GaveUp operationName (maxAttempts options) (message (as_Error e))]))"
proof -
  from retry_loop_char [OF assms, of operation s operationName "PlainError ''Unknown error''"]
  obtain m where m: "1 + int m \<le> maxAttempts options"
      "\<forall>i<m. isl (fst (operation (state_after operation s i)))"
      "1 + int m < maxAttempts options \<longrightarrow> \<not> isl (fst (operation (state_after operation s m)))"
      "retry_loop operation options operationName 1 (PlainError ''Unknown error'') s =
         ((case fst (operation (state_after operation s m)) of
             Inr v \<Rightarrow> Inr v | Inl e \<Rightarrow> Inl (ErrorInst (as_Error e))),
          state_after operation s (Suc m),
          concat (map (retry_round operation options operationName s 1) [0..<m]) @
          Invoked (1 + int m) #
          (case fst (operation (state_after operation s m)) of
             Inr v \<Rightarrow> [] | Inl e \<Rightarrow> [GaveUp operationName (maxAttempts options) (message (as_Error e))]))"
    by blast
  have out: "outcome operation s (Suc m) = fst (operation (state_after operation s m))"
    by (simp add: outcome_def)
  have maps: "map (retry_round operation options operationName s 1) [0..<m] =
     map (\<lambda>k. [Invoked (int k),
                Warned operationName (int k)
                  (min (baseDelay options * 2 ^ (k - 1)) (maxDelay options))
                  (message (as_Error (projl (outcome operation s k)))),
                Slept (min (baseDelay options * 2 ^ (k - 1)) (maxDelay options))])
         [1..<Suc m]"
    unfolding map_Suc_upt [symmetric] One_nat_def map_map o_def retry_round_first ..
  have fails: "\<forall>k. 1 \<le> k \<and> k < Suc m \<longrightarrow> isl (outcome operation s k)"
  proof (intro allI impI)
    fix k assume k: "1 \<le> k \<and> k < Suc m"
    then have "k - 1 < m" by arith
    with m(2) show "isl (outcome operation s k)" by (simp add: outcome_def)
  qed
  show ?thesis
    apply (rule exI [of _ "Suc m"])
    apply (intro conjI)
    subgoal by simp
    subgoal using m(1) by simp
    subgoal using fails .
    subgoal using m(3) unfolding out by simp
    subgoal unfolding retryApiCall_def m(4) maps out by (simp add: add.commute)
    done
qed

theorem retry_backoff_schedule_witness:
  "1 \<le> maxAttempts sample_options \<and>
   (\<exists>n. 1 \<le> n \<and> int n \<le> maxAttempts sample_options \<and>
      (\<forall>k. 1 \<le> k \<and> k < n \<longrightarrow> isl (outcome fails_twice 0 k)) \<and>
      (int n < maxAttempts sample_options \<longrightarrow> \<not> isl (outcome fails_twice 0 n)) \<and>
      retryApiCall fails_twice sample_options ''fetch'' 0 =
        ((case outcome fails_twice 0 n of
            Inr v \<Rightarrow> Inr v | Inl e \<Rightarrow> Inl (ErrorInst (as_Error e))),
         state_after fails_twice 0 n,
         concat (map (\<lambda>k. [Invoked (int k),
                           Warned ''fetch'' (int k)
                             (min (baseDelay sample_options * 2 ^ (k - 1)) (maxDelay sample_options))
                             (message (as_Error (projl (outcome fails_twice 0 k)))),
                           Slept (min (baseDelay sample_options * 2 ^ (k - 1))
                                      (maxDelay sample_options))])
                     [1..<n]) @
         Invoked (int n) #
         (case outcome fails_twice 0 n of
            Inr v \<Rightarrow> []
          | Inl e \<Rightarrow> [GaveUp ''fetch'' (maxAttempts sample_options) (message (as_Error e))])))"
proof -
  have h: "1 \<le> maxAttempts sample_options" by (simp add: sample_options_def)
  from h retry_backoff_schedule [OF h, of fails_twice 0 "''fetch''"] show ?thesis by blast
qed

text \<open>
  The example of the spec: with 3 attempts, base delay 100 and cap 5000, an operation
  that fails twice and then succeeds returns its value after sleeping 100 and then 200.
\<close>

lemma retry_example:
  "retryApiCall fails_twice sample_options ''fetch'' 0 =
     (Inr ''done'', 3,
      [Invoked 1, Warned ''fetch'' 1 100 ''unavailable'', Slept 100,
       Invoked 2, Warned ''fetch'' 2 200 ''unavailable'', Slept 200,
       Invoked 3])"
  by (simp add: retryApiCall_def retry_loop.simps sample_options_def fails_twice_def)

text \<open>
  When every attempt of the budget fails, the call rejects with the Error made of what
  the final attempt threw.
\<close>

lemma retry_exhausted:
  assumes "1 \<le> maxAttempts options"
    and "list_all (\<lambda>k. isl (outcome operation s k)) [1..<Suc (nat (maxAttempts options))]"
  shows "fst (retryApiCall operation options operationName s) =
           Inl (ErrorInst (as_Error (projl (outcome operation s (nat (maxAttempts options))))))"
proof -
  from retry_loop_char [OF assms(1), of operation s operationName "PlainError ''Unknown error''"]
  obtain m where m: "1 + int m \<le> maxAttempts options"
      "1 + int m < maxAttempts options \<longrightarrow> \<not> isl (fst (operation (state_after operation s m)))"
      "fst (retry_loop operation options operationName 1 (PlainError ''Unknown error'') s) =
         (case fst (operation (state_after operation s m)) of
             Inr v \<Rightarrow> Inr v | Inl e \<Rightarrow> Inl (ErrorInst (as_Error e)))"
    by fastforce
  have out: "outcome operation s (Suc m) = fst (operation (state_after operation s m))"
    by (simp add: outcome_def)
  from m(1) have "Suc m \<in> set [1..<Suc (nat (maxAttempts options))]" by (simp; linarith)
  with assms(2) have failed: "isl (outcome operation s (Suc m))"
    unfolding list_all_iff by blast
  with m(2) have "\<not> 1 + int m < maxAttempts options" unfolding out by blast
  with m(1) have last: "nat (maxAttempts options) = Suc m" by linarith
  from failed show ?thesis
    unfolding retryApiCall_def m(3) last out by (auto split: sum.splits)
qed

text \<open>
  C3 (as amended). If all \<open>maxAttempts \<ge> 1\<close> attempts fail, the call rejects as follows:
  when the final attempt threw an Error instance, with that very Error, whatever its kind;
  when it threw a value that is not an Error instance, with a new Error whose message is
  the string conversion of that value.
\<close>

theorem retry_exhausted_rethrows:
  assumes "1 \<le> maxAttempts options"
    and "list_all (\<lambda>k. isl (outcome operation s k)) [1..<Suc (nat (maxAttempts options))]"
  shows "(\<forall>e. outcome operation s (nat (maxAttempts options)) = Inl (ErrorInst e) \<longrightarrow>
              fst (retryApiCall operation options operationName s) = Inl (ErrorInst e)) \<and>
         (\<forall>v. outcome operation s (nat (maxAttempts options)) = Inl (NonError v) \<longrightarrow>
              fst (retryApiCall operation options operationName s) =
                Inl (ErrorInst (PlainError (js_String v))))"
  using retry_exhausted [OF assms, of operationName] by simp

theorem retry_exhausted_rethrows_witness:
  "1 \<le> maxAttempts sample_options \<and>
   list_all (\<lambda>k. isl (outcome throws_zod 0 k)) [1..<Suc (nat (maxAttempts sample_options))] \<and>
   outcome throws_zod 0 (nat (maxAttempts sample_options)) =
     Inl (ErrorInst (ZodError [Issue [''results''] TooSmall])) \<and>
   fst (retryApiCall throws_zod sample_options ''fetch'' 0) =
     Inl (ErrorInst (ZodError [Issue [''results''] TooSmall]))"
proof -
  have h1: "1 \<le> maxAttempts sample_options" by (simp add: sample_options_def)
  have out: "\<And>k. outcome throws_zod 0 k = Inl (ErrorInst (ZodError [Issue [''results''] TooSmall]))"
    by (simp add: outcome_def throws_zod_def)
  have h2: "list_all (\<lambda>k. isl (outcome throws_zod 0 k)) [1..<Suc (nat (maxAttempts sample_options))]"
    by (simp add: out list_all_iff)
  from retry_exhausted_rethrows [OF h1 h2, of "''fetch''"] h1 h2 out show ?thesis by simp
qed

text \<open>
  C3 as stated fails: an operation that throws the string \<open>boom\<close> at every attempt makes
  the call reject with an Error object whose message is \<open>boom\<close>, not with the string.
\<close>

theorem retry_rethrows_counterexample:
  "outcome throws_text 0 3 = Inl (NonError (JStr ''boom'')) \<and>
   fst (retryApiCall throws_text sample_options ''fetch'' 0) = Inl (ErrorInst (PlainError ''boom'')) \<and>
   fst (retryApiCall throws_text sample_options ''fetch'' 0) \<noteq> outcome throws_text 0 3"
  by (simp add: outcome_def retryApiCall_def retry_loop.simps sample_options_def throws_text_def)

text \<open>
  C10. With \<open>maxAttempts \<le> 0\<close> the call rejects with the placeholder Error
  \<open>Unknown error\<close>; the state is the one it was called in and there is no event, so the
  operation was not invoked.
\<close>

theorem retry_without_attempts:
  "maxAttempts options \<le> 0 \<Longrightarrow>
   retryApiCall operation options operationName s =
     (Inl (ErrorInst (PlainError ''Unknown error'')), s, [])"
  by (simp add: retryApiCall_def retry_loop.simps)

theorem retry_without_attempts_witness:
  "maxAttempts no_attempts \<le> 0 \<and>
   retryApiCall fails_twice no_attempts ''fetch'' 0 =
     (Inl (ErrorInst (PlainError ''Unknown error'')), 0, [])"
proof -
  have h: "maxAttempts no_attempts \<le> 0" by (simp add: no_attempts_def)
  from retry_without_attempts [OF h, of fails_twice "''fetch''" 0] h show ?thesis by simp
qed

section \<open>Schema validator: properties\<close>

lemma both_Inr:
  "both a b = Inr p \<longleftrightarrow> (\<exists>x y. a = Inr x \<and> b = Inr y \<and> p = (x, y))"
  by (cases a; cases b) auto

lemma both_Inl:
  "both a b = Inl issues \<Longrightarrow> isl a \<or> isl b"
  by (cases a; cases b) auto

lemma string_min1_trim_str:
  "string_min1_trim path (Some (JStr s)) =
     (if s = [] then Inl [Issue path TooSmall] else Inr (trim s))"
  by (simp add: string_min1_trim_def)

lemma string_url_str:
  "string_url is_url path (Some (JStr s)) =
     (if is_url s then Inr s else Inl [Issue path InvalidUrl])"
  by (simp add: string_url_def)

lemma string_min1_trim_Inr:
  "string_min1_trim path v = Inr t \<longleftrightarrow> (\<exists>s. v = Some (JStr s) \<and> s \<noteq> [] \<and> t = trim s)"
  by (auto simp: string_min1_trim_def split: option.splits json.splits)

lemma string_url_Inr:
  "string_url is_url path v = Inr t \<longleftrightarrow> (\<exists>s. v = Some (JStr s) \<and> is_url s \<and> t = s)"
  by (auto simp: string_url_def split: option.splits json.splits)

lemma UserNameSchema_Inr:
  "UserNameSchema path v = Inr n \<longleftrightarrow>
     (\<exists>kvs f l. v = Some (JObj kvs) \<and>
        map_of kvs ''first'' = Some (JStr f) \<and> f \<noteq> [] \<and>
        map_of kvs ''last'' = Some (JStr l) \<and> l \<noteq> [] \<and>
        n = \<lparr>first = trim f, last' = trim l\<rparr>)"
  by (auto simp: UserNameSchema_def both_Inr string_min1_trim_Inr string_min1_trim_str
           split: option.splits json.splits sum.splits)

lemma UserLocationSchema_Inr:
  "UserLocationSchema path v = Inr n \<longleftrightarrow>
     (\<exists>kvs c k. v = Some (JObj kvs) \<and>
        map_of kvs ''city'' = Some (JStr c) \<and> c \<noteq> [] \<and>
        map_of kvs ''country'' = Some (JStr k) \<and> k \<noteq> [] \<and>
        n = \<lparr>city = trim c, country = trim k\<rparr>)"
  by (auto simp: UserLocationSchema_def both_Inr string_min1_trim_Inr string_min1_trim_str
           split: option.splits json.splits sum.splits)

lemma UserPictureSchema_Inr:
  "UserPictureSchema is_url path v = Inr n \<longleftrightarrow>
     (\<exists>kvs p. v = Some (JObj kvs) \<and>
        map_of kvs ''large'' = Some (JStr p) \<and> is_url p \<and> n = \<lparr>large = p\<rparr>)"
  by (auto simp: UserPictureSchema_def string_url_Inr string_url_str
           split: option.splits json.splits sum.splits)

lemma UserSchema_Inr:
  "UserSchema is_url path v = Inr u \<longleftrightarrow>
     (\<exists>kvs n l p. v = Some (JObj kvs) \<and>
        UserNameSchema (path @ [''name'']) (map_of kvs ''name'') = Inr n \<and>
        UserLocationSchema (path @ [''location'']) (map_of kvs ''location'') = Inr l \<and>
        UserPictureSchema is_url (path @ [''picture'']) (map_of kvs ''picture'') = Inr p \<and>
        u = \<lparr>name = n, location = l, picture = p\<rparr>)"
  by (auto simp: UserSchema_def both_Inr split: option.splits json.splits sum.splits)

lemma parse_Inr: "parse schema data = Inr v \<longleftrightarrow> schema [] (Some data) = Inr v"
  by (simp add: parse_def split: sum.splits)

lemma parse_Inl:
  "parse schema data = Inl e \<longleftrightarrow> (\<exists>issues. schema [] (Some data) = Inl issues \<and> e = ErrorInst (ZodError issues))"
  by (auto simp add: parse_def split: sum.splits)

lemma lookup_path_Cons:
  "lookup_path v (k # ks) = Some r \<longleftrightarrow>
     (\<exists>kvs x. v = JObj kvs \<and> map_of kvs k = Some x \<and> lookup_path x ks = Some r)"
  by (cases v) (auto split: option.splits)

lemma string_at_two:
  "string_at data [a, b] = Some s \<longleftrightarrow>
     (\<exists>kvs kvs'. data = JObj kvs \<and> map_of kvs a = Some (JObj kvs') \<and>
        map_of kvs' b = Some (JStr s))"
proof -
  have "string_at data [a, b] = Some s \<longleftrightarrow> lookup_path data [a, b] = Some (JStr s)"
    by (auto simp: string_at_def split: option.splits json.splits)
  then show ?thesis by (auto simp: lookup_path_Cons)
qed

lemma validateUser_Inr_iff:
  "validateUser is_url data = Inr u \<longleftrightarrow>
     (\<exists>f l c k p.
        string_at data [''name'', ''first''] = Some f \<and> f \<noteq> [] \<and>
        string_at data [''name'', ''last''] = Some l \<and> l \<noteq> [] \<and>
        string_at data [''location'', ''city''] = Some c \<and> c \<noteq> [] \<and>
        string_at data [''location'', ''country''] = Some k \<and> k \<noteq> [] \<and>
        string_at data [''picture'', ''large''] = Some p \<and> is_url p \<and>
        u = \<lparr>name = \<lparr>first = trim f, last' = trim l\<rparr>,
             location = \<lparr>city = trim c, country = trim k\<rparr>,
             picture = \<lparr>large = p\<rparr>\<rparr>)"
  unfolding validateUser_def parse_Inr UserSchema_Inr UserNameSchema_Inr
    UserLocationSchema_Inr UserPictureSchema_Inr string_at_two
  by auto

lemma validateUser_cases:
  "(\<exists>u. validateUser is_url data = Inr u) \<or>
   (\<exists>issues. validateUser is_url data = Inl (ErrorInst (ZodError issues)))"
  by (simp add: validateUser_def parse_def split: sum.splits)

lemma trim_Nil: "trim [] = []"
  by (simp add: trim_def)

text \<open>
  What the validator does guarantee: an input whose four name and location strings are non-empty
  after trimming and whose picture is a URL is accepted, and the strings come back trimmed.
\<close>

lemma validateUser_accepts:
  assumes "string_at data [''name'', ''first''] = Some f" "trim f \<noteq> []"
    and "string_at data [''name'', ''last''] = Some l" "trim l \<noteq> []"
    and "string_at data [''location'', ''city''] = Some c" "trim c \<noteq> []"
    and "string_at data [''location'', ''country''] = Some k" "trim k \<noteq> []"
    and "string_at data [''picture'', ''large''] = Some p" "is_url p"
  shows "validateUser is_url data =
           Inr \<lparr>name = \<lparr>first = trim f, last' = trim l\<rparr>,
                location = \<lparr>city = trim c, country = trim k\<rparr>,
                picture = \<lparr>large = p\<rparr>\<rparr>"
proof -
  from assms(2,4,6,8) have "f \<noteq> []" "l \<noteq> []" "c \<noteq> []" "k \<noteq> []"
    using trim_Nil by auto
  with assms show ?thesis unfolding validateUser_Inr_iff by simp
qed

text \<open>
  An input in which one of the five strings is missing (or not a string), in which one of
  the four name and location strings is the empty string, or whose picture is not a URL,
  is rejected with a ZodError; a rejection carries no value.
\<close>

lemma validateUser_rejects:
  assumes "path \<in> {[''name'', ''first''], [''name'', ''last''], [''location'', ''city''],
                    [''location'', ''country'']} \<and>
           (string_at data path = None \<or> string_at data path = Some []) \<or>
           string_at data [''picture'', ''large''] = None \<or>
           (\<exists>p. string_at data [''picture'', ''large''] = Some p \<and> \<not> is_url p)"
  shows "\<exists>issues. validateUser is_url data = Inl (ErrorInst (ZodError issues))"
proof -
  have "\<not> (\<exists>u. validateUser is_url data = Inr u)"
    using assms unfolding validateUser_Inr_iff by auto
  with validateUser_cases [of is_url data] show ?thesis by blast
qed

text \<open>Trimming leaves no white space at either end, so trimming again changes nothing.\<close>

lemma trim_prefix: "\<exists>r. dropWhile is_space s = trim s @ r"
proof -
  have "rev (dropWhile is_space s) =
          takeWhile is_space (rev (dropWhile is_space s)) @
          dropWhile is_space (rev (dropWhile is_space s))"
    by simp
  then have "dropWhile is_space s =
          rev (dropWhile is_space (rev (dropWhile is_space s))) @
          rev (takeWhile is_space (rev (dropWhile is_space s)))"
    by (metis rev_append rev_rev_ident)
  then show ?thesis unfolding trim_def by blast
qed

lemma trim_no_leading_space: "trim s \<noteq> [] \<Longrightarrow> \<not> is_space (hd (trim s))"
proof -
  assume ne: "trim s \<noteq> []"
  obtain r where r: "dropWhile is_space s = trim s @ r" using trim_prefix by blast
  with ne have "hd (dropWhile is_space s) = hd (trim s)" by simp
  moreover from r ne have "dropWhile is_space s \<noteq> []" by auto
  then have "\<not> is_space (hd (dropWhile is_space s))" by (rule hd_dropWhile)
  ultimately show ?thesis by simp
qed

lemma trim_no_trailing_space: "trim s \<noteq> [] \<Longrightarrow> \<not> is_space (last (trim s))"
proof -
  assume ne: "trim s \<noteq> []"
  then have "dropWhile is_space (rev (dropWhile is_space s)) \<noteq> []" by (simp add: trim_def)
  then have "\<not> is_space (hd (dropWhile is_space (rev (dropWhile is_space s))))"
    by (rule hd_dropWhile)
  with ne show ?thesis by (simp add: trim_def last_rev)
qed

lemma trim_idem: "trim (trim s) = trim s"
proof (cases "trim s = []")
  case True
  then show ?thesis by (simp add: trim_Nil)
next
  case False
  have front: "dropWhile is_space (trim s) = trim s"
    using False trim_no_leading_space [OF False] by (cases "trim s") auto
  have rear: "dropWhile is_space (rev (trim s)) = rev (trim s)"
    using False trim_no_trailing_space [OF False] by (cases "rev (trim s)") (auto simp: last_rev)
  show ?thesis
    by (subst (1) trim_def) (simp add: front rear)
qed

lemma string_at_json_of_User:
  "string_at (json_of_User u) [''name'', ''first''] = Some (first (name u))"
  "string_at (json_of_User u) [''name'', ''last''] = Some (last' (name u))"
  "string_at (json_of_User u) [''location'', ''city''] = Some (city (location u))"
  "string_at (json_of_User u) [''location'', ''country''] = Some (country (location u))"
  "string_at (json_of_User u) [''picture'', ''large''] = Some (large (picture u))"
  by (simp_all add: string_at_def json_of_User_def)

text \<open>Validating the object that a validation returned gives the same user, if it succeeds.\<close>

lemma validateUser_again:
  assumes "validateUser is_url usr = Inr v"
    and "validateUser is_url (json_of_User v) = Inr v'"
  shows "v' = v"
proof -
  from assms(1) obtain f l c k p where
    v: "v = \<lparr>name = \<lparr>first = trim f, last' = trim l\<rparr>,
              location = \<lparr>city = trim c, country = trim k\<rparr>,
              picture = \<lparr>large = p\<rparr>\<rparr>"
    unfolding validateUser_Inr_iff by blast
  from assms(2) show ?thesis
    unfolding validateUser_Inr_iff string_at_json_of_User
    by (auto simp: v trim_idem)
qed

text \<open>
  C1. The claim requires a rejection when a name or location string is empty after
  trimming. The schema checks the length before it trims: the input whose first name is
  a single space has a first name that is empty after trimming, and it is accepted; the
  user that comes back has the empty string as first name.
\<close>

theorem validateUser_accepts_blank_name:
  "string_at blank_first_name [''name'', ''first''] = Some '' '' \<and>
   trim '' '' = [] \<and>
   validateUser http_url blank_first_name =
     Inr \<lparr>name = \<lparr>first = [], last' = ''Doe''\<rparr>,
          location = \<lparr>city = ''Paris'', country = ''France''\<rparr>,
          picture = \<lparr>large = ''https://example.org/1.jpg''\<rparr>\<rparr>"
  by (simp add: blank_first_name_def raw_user_def string_at_def trim_def is_space_def
        validateUser_def parse_def UserSchema_def UserNameSchema_def UserLocationSchema_def
        UserPictureSchema_def string_min1_trim_def string_url_def http_url_def)

text \<open>The user that this validation returns is rejected when it is validated again.\<close>

lemma validateUser_blank_name_again:
  "\<exists>v. validateUser http_url blank_first_name = Inr v \<and>
       isl (validateUser http_url (json_of_User v))"
  by (simp add: blank_first_name_def raw_user_def string_at_def trim_def is_space_def
        validateUser_def parse_def UserSchema_def UserNameSchema_def UserLocationSchema_def
        UserPictureSchema_def string_min1_trim_def string_url_def http_url_def json_of_User_def)

section \<open>User-weather converter: properties\<close>

lemma validateUser_Inl:
  "validateUser is_url data = Inl e \<Longrightarrow> \<exists>issues. e = ErrorInst (ZodError issues)"
  by (auto simp: validateUser_def parse_Inl)

lemma convert_dist_invalid:
  "validateUser is_url usr = Inl e \<Longrightarrow>
   convertUserToUserWeatherData_dist is_url getCoordinates getCurrentWeather usr =
     Inr \<lparr>user = usr, weather = None\<rparr>"
  by (auto simp: convertUserToUserWeatherData_dist_def dest!: validateUser_Inl)

lemma convert_dist_invalid_again:
  "validateUser is_url usr = Inr v \<Longrightarrow> validateUser is_url (json_of_User v) = Inl e \<Longrightarrow>
   convertUserToUserWeatherData_dist is_url getCoordinates getCurrentWeather usr =
     Inr \<lparr>user = usr, weather = None\<rparr>"
  by (auto simp: convertUserToUserWeatherData_dist_def UserUtils_getFullName_def
           dest!: validateUser_Inl)

lemma convert_dist_valid:
  "validateUser is_url usr = Inr v \<Longrightarrow> validateUser is_url (json_of_User v) = Inr v' \<Longrightarrow>
   convertUserToUserWeatherData_dist is_url getCoordinates getCurrentWeather usr =
     (case getCoordinates (getLocationQuery v) of
        Inl e \<Rightarrow> Inr \<lparr>user = usr, weather = None\<rparr>
      | Inr g \<Rightarrow>
          (case getCurrentWeather (lat g) (lng g) of
             Inl e \<Rightarrow> Inr \<lparr>user = usr, weather = None\<rparr>
           | Inr w \<Rightarrow> Inr \<lparr>user = json_of_User v, weather = Some w\<rparr>))"
proof -
  assume v: "validateUser is_url usr = Inr v" and v': "validateUser is_url (json_of_User v) = Inr v'"
  then have same: "v' = v" by (rule validateUser_again)
  show ?thesis
    using v v' unfolding same
    by (simp add: convertUserToUserWeatherData_dist_def UserUtils_getFullName_def
          UserUtils_getLocationQuery_def getLocationQuery_def
          split: sum.splits thrown.splits js_error.splits)
qed

text \<open>
  What the conversion does guarantee. It always returns a value (\<open>Inr\<close>), in the
  source and in the compiled variant. In the source the weather of that value is null
  exactly when the validation of the user, the geocoding of its location or the weather
  fetch for the coordinates failed. In the compiled variant there is one more cause: the
  validated user is validated again before it is formatted, and the weather is null also
  when that second validation fails.
\<close>

lemma convert_returns:
  "(\<exists>r. convertUserToUserWeatherData is_url getCoordinates getCurrentWeather usr = Inr r \<and>
        (weather r = None \<longleftrightarrow>
           isl (validateUser is_url usr) \<or>
           (\<exists>v. validateUser is_url usr = Inr v \<and>
                (isl (getCoordinates (getLocationQuery v)) \<or>
                 (\<exists>g. getCoordinates (getLocationQuery v) = Inr g \<and>
                      isl (getCurrentWeather (lat g) (lng g))))))) \<and>
   (\<exists>r. convertUserToUserWeatherData_dist is_url getCoordinates getCurrentWeather usr = Inr r \<and>
        (weather r = None \<longleftrightarrow>
           isl (validateUser is_url usr) \<or>
           (\<exists>v. validateUser is_url usr = Inr v \<and>
                (isl (validateUser is_url (json_of_User v)) \<or>
                 isl (getCoordinates (getLocationQuery v)) \<or>
                 (\<exists>g. getCoordinates (getLocationQuery v) = Inr g \<and>
                      isl (getCurrentWeather (lat g) (lng g)))))))"
proof (rule conjI)
  show "\<exists>r. convertUserToUserWeatherData is_url getCoordinates getCurrentWeather usr = Inr r \<and>
        (weather r = None \<longleftrightarrow>
           isl (validateUser is_url usr) \<or>
           (\<exists>v. validateUser is_url usr = Inr v \<and>
                (isl (getCoordinates (getLocationQuery v)) \<or>
                 (\<exists>g. getCoordinates (getLocationQuery v) = Inr g \<and>
                      isl (getCurrentWeather (lat g) (lng g))))))"
    by (auto simp: convertUserToUserWeatherData_def split: sum.splits)
next
  show "\<exists>r. convertUserToUserWeatherData_dist is_url getCoordinates getCurrentWeather usr = Inr r \<and>
        (weather r = None \<longleftrightarrow>
           isl (validateUser is_url usr) \<or>
           (\<exists>v. validateUser is_url usr = Inr v \<and>
                (isl (validateUser is_url (json_of_User v)) \<or>
                 isl (getCoordinates (getLocationQuery v)) \<or>
                 (\<exists>g. getCoordinates (getLocationQuery v) = Inr g \<and>
                      isl (getCurrentWeather (lat g) (lng g))))))"
  proof (cases "validateUser is_url usr")
    case (Inl e)
    then show ?thesis by (simp add: convert_dist_invalid)
  next
    case v: (Inr v)
    show ?thesis
    proof (cases "validateUser is_url (json_of_User v)")
      case (Inl e)
      with v show ?thesis by (simp add: convert_dist_invalid_again)
    next
      case (Inr v')
      with v show ?thesis
        by (auto simp: convert_dist_valid split: sum.splits)
    qed
  qed
qed

text \<open>
  C4. The claim allows a null weather only when the validation of the user, the geocoding
  or the weather fetch failed. The compiled variant returns a null weather for the user
  whose first name is a single space, although that user passes validation, its location
  is geocoded and the weather fetch for the coordinates succeeds: the validated user has
  an empty first name and is rejected when \<open>UserUtils.getFullName\<close> validates it again.
  The source returns the reading for the same input.
\<close>

theorem convert_dist_blank_name_null_weather:
  "validateUser http_url blank_first_name = Inr blank_validated \<and>
   geocoder_sample (getLocationQuery blank_validated) = Inr \<lparr>lat = 40, lng = - 74\<rparr> \<and>
   weather_sunny 40 (- 74) =
     Inr \<lparr>temperature = 21, condition = ''Sunny'', humidity = 40, stale = False\<rparr> \<and>
   convertUserToUserWeatherData_dist http_url geocoder_sample weather_sunny blank_first_name =
     Inr \<lparr>user = blank_first_name, weather = None\<rparr> \<and>
   convertUserToUserWeatherData http_url geocoder_sample weather_sunny blank_first_name =
     Inr \<lparr>user = json_of_User blank_validated,
          weather = Some \<lparr>temperature = 21, condition = ''Sunny'', humidity = 40,
                           stale = False\<rparr>\<rparr>"
proof -
  have valid: "validateUser http_url blank_first_name = Inr blank_validated"
    by (simp add: blank_first_name_def blank_validated_def raw_user_def trim_def is_space_def
        validateUser_def parse_def UserSchema_def UserNameSchema_def UserLocationSchema_def
        UserPictureSchema_def string_min1_trim_def string_url_def http_url_def)
  have again: "validateUser http_url (json_of_User blank_validated) =
                 Inl (ErrorInst (ZodError [Issue [''name'', ''first''] TooSmall]))"
    by (simp add: blank_validated_def json_of_User_def trim_def is_space_def
        validateUser_def parse_def UserSchema_def UserNameSchema_def UserLocationSchema_def
        UserPictureSchema_def string_min1_trim_def string_url_def http_url_def)
  have geo: "geocoder_sample (getLocationQuery blank_validated) = Inr \<lparr>lat = 40, lng = - 74\<rparr>"
    by (simp add: geocoder_sample_def getLocationQuery_def blank_validated_def)
  have wx: "weather_sunny 40 (- 74) =
     Inr \<lparr>temperature = 21, condition = ''Sunny'', humidity = 40, stale = False\<rparr>"
    by (simp add: weather_sunny_def)
  have dist: "convertUserToUserWeatherData_dist http_url geocoder_sample weather_sunny
                blank_first_name = Inr \<lparr>user = blank_first_name, weather = None\<rparr>"
    using valid again by (rule convert_dist_invalid_again)
  have src: "convertUserToUserWeatherData http_url geocoder_sample weather_sunny blank_first_name =
     Inr \<lparr>user = json_of_User blank_validated,
          weather = Some \<lparr>temperature = 21, condition = ''Sunny'', humidity = 40,
                           stale = False\<rparr>\<rparr>"
    by (simp add: convertUserToUserWeatherData_def valid geo wx)
  from valid geo wx dist src show ?thesis by simp
qed

text \<open>
  C5 (as amended). When the user passes validation and the geocoding call or the weather
  call fails, the conversion returns the object it was called with, as it was given, with
  a null weather; this holds in the source and in the compiled variant.
\<close>

theorem convert_failure_returns_input:
  assumes "validateUser is_url usr = Inr v"
    and "isl (getCoordinates (getLocationQuery v)) \<or>
         (\<exists>g. getCoordinates (getLocationQuery v) = Inr g \<and> isl (getCurrentWeather (lat g) (lng g)))"
  shows "convertUserToUserWeatherData is_url getCoordinates getCurrentWeather usr =
           Inr \<lparr>user = usr, weather = None\<rparr> \<and>
         convertUserToUserWeatherData_dist is_url getCoordinates getCurrentWeather usr =
           Inr \<lparr>user = usr, weather = None\<rparr>"
proof (rule conjI)
  show "convertUserToUserWeatherData is_url getCoordinates getCurrentWeather usr =
           Inr \<lparr>user = usr, weather = None\<rparr>"
    using assms by (auto simp: convertUserToUserWeatherData_def split: sum.splits)
next
  show "convertUserToUserWeatherData_dist is_url getCoordinates getCurrentWeather usr =
           Inr \<lparr>user = usr, weather = None\<rparr>"
  proof (cases "validateUser is_url (json_of_User v)")
    case (Inl e)
    with assms(1) show ?thesis by (simp add: convert_dist_invalid_again)
  next
    case (Inr v')
    with assms show ?thesis by (auto simp: convert_dist_valid split: sum.splits)
  qed
qed

theorem convert_failure_returns_input_witness:
  "validateUser http_url padded_user = Inr john_doe \<and>
   isl (geocoder_down (getLocationQuery john_doe)) \<and>
   convertUserToUserWeatherData http_url geocoder_down weather_sunny padded_user =
     Inr \<lparr>user = padded_user, weather = None\<rparr> \<and>
   convertUserToUserWeatherData_dist http_url geocoder_down weather_sunny padded_user =
     Inr \<lparr>user = padded_user, weather = None\<rparr>"
proof -
  have h1: "validateUser http_url padded_user = Inr john_doe"
    by (simp add: padded_user_def john_doe_def raw_user_def trim_def is_space_def
        validateUser_def parse_def UserSchema_def UserNameSchema_def UserLocationSchema_def
        UserPictureSchema_def string_min1_trim_def string_url_def http_url_def)
  have h2: "isl (geocoder_down (getLocationQuery john_doe))"
    by (simp add: geocoder_down_def)
  have h3: "isl (geocoder_down (getLocationQuery john_doe)) \<or>
     (\<exists>g. geocoder_down (getLocationQuery john_doe) = Inr g \<and> isl (weather_sunny (lat g) (lng g)))"
    using h2 by (rule disjI1)
  from convert_failure_returns_input [of http_url padded_user john_doe geocoder_down weather_sunny,
    OF h1 h3] h1 h2
  show ?thesis by simp
qed

text \<open>
  C5 as stated fails: for a user given with surrounding white space whose geocoding
  fails, the result holds the object as given, which is not the validated (trimmed) user.
\<close>

theorem convert_failure_counterexample:
  "validateUser http_url padded_user = Inr john_doe \<and>
   isl (geocoder_down (getLocationQuery john_doe)) \<and>
   convertUserToUserWeatherData http_url geocoder_down weather_sunny padded_user \<noteq>
     Inr \<lparr>user = json_of_User john_doe, weather = None\<rparr> \<and>
   convertUserToUserWeatherData_dist http_url geocoder_down weather_sunny padded_user \<noteq>
     Inr \<lparr>user = json_of_User john_doe, weather = None\<rparr>"
proof -
  have h1: "validateUser http_url padded_user = Inr john_doe"
    by (simp add: padded_user_def john_doe_def raw_user_def trim_def is_space_def
        validateUser_def parse_def UserSchema_def UserNameSchema_def UserLocationSchema_def
        UserPictureSchema_def string_min1_trim_def string_url_def http_url_def)
  have h2: "isl (geocoder_down (getLocationQuery john_doe))"
    by (simp add: geocoder_down_def)
  have again: "validateUser http_url (json_of_User john_doe) = Inr john_doe"
    by (simp add: john_doe_def json_of_User_def trim_def is_space_def
        validateUser_def parse_def UserSchema_def UserNameSchema_def UserLocationSchema_def
        UserPictureSchema_def string_min1_trim_def string_url_def http_url_def)
  have differ: "padded_user \<noteq> json_of_User john_doe"
    by (simp add: padded_user_def john_doe_def raw_user_def json_of_User_def)
  have src: "convertUserToUserWeatherData http_url geocoder_down weather_sunny padded_user =
          Inr \<lparr>user = padded_user, weather = None\<rparr>"
    using h1 by (simp add: convertUserToUserWeatherData_def geocoder_down_def)
  have dist: "convertUserToUserWeatherData_dist http_url geocoder_down weather_sunny padded_user =
          Inr \<lparr>user = padded_user, weather = None\<rparr>"
    using h1 again by (simp add: convert_dist_valid geocoder_down_def)
  from h1 h2 differ show ?thesis unfolding src dist by simp
qed

section \<open>Batch conversion: properties\<close>

lemma UserSchema_path:
  "UserSchema is_url path v = Inr u \<longleftrightarrow> UserSchema is_url [] v = Inr u"
  by (simp add: UserSchema_Inr UserNameSchema_Inr UserLocationSchema_Inr UserPictureSchema_Inr)

lemma parse_elements_all2:
  "parse_elements (UserSchema is_url) path i xs = Inr ys \<longleftrightarrow>
     list_all2 (\<lambda>x y. validateUser is_url x = Inr y) xs ys"
proof (induction xs arbitrary: i ys)
  case Nil
  then show ?case by auto
next
  case (Cons x xs)
  have elem: "\<And>u. UserSchema is_url (path @ [show_nat i]) (Some x) = Inr u \<longleftrightarrow>
                   validateUser is_url x = Inr u"
    by (simp add: validateUser_def parse_Inr UserSchema_path [of is_url "path @ [show_nat i]"])
  have "parse_elements (UserSchema is_url) path i (x # xs) = Inr ys \<longleftrightarrow>
          (\<exists>y ys'. ys = y # ys' \<and> UserSchema is_url (path @ [show_nat i]) (Some x) = Inr y \<and>
             parse_elements (UserSchema is_url) path (Suc i) xs = Inr ys')"
    by (cases "UserSchema is_url (path @ [show_nat i]) (Some x)";
        cases "parse_elements (UserSchema is_url) path (Suc i) xs") auto
  then show ?case
    by (simp add: elem Cons.IH list_all2_Cons1)
qed

lemma parse_elements_UserSchema:
  "parse_elements (UserSchema is_url) path i xs = Inr ys \<longleftrightarrow>
     length ys = length xs \<and> (\<forall>j<length xs. validateUser is_url (xs ! j) = Inr (ys ! j))"
  unfolding parse_elements_all2 list_all2_conv_all_nth by auto

lemma array_min1_JArr:
  "array_min1 element path (Some (JArr xs)) =
     (if xs = [] then Inl [Issue path TooSmall] else parse_elements element path 0 xs)"
  by (cases "parse_elements element path 0 xs")
     (auto simp: array_min1_def split: sum.splits list.splits)

lemma array_min1_Inr:
  "array_min1 element path v = Inr ys \<Longrightarrow> \<exists>xs. v = Some (JArr xs)"
  by (auto simp: array_min1_def split: option.splits json.splits)

lemma validateUsers_Inr_iff:
  "validateUsers is_url users = Inr vs \<longleftrightarrow>
     (\<exists>xs. users = JArr xs \<and> xs \<noteq> [] \<and> length vs = length xs \<and>
        (\<forall>j<length xs. validateUser is_url (xs ! j) = Inr (vs ! j)))"
proof
  assume ok: "validateUsers is_url users = Inr vs"
  then have arr: "array_min1 (UserSchema is_url) [] (Some users) = Inr vs"
    by (simp add: validateUsers_def parse_Inr UsersArraySchema_def)
  then obtain xs where xs: "users = JArr xs" using array_min1_Inr by blast
  from arr show "\<exists>xs. users = JArr xs \<and> xs \<noteq> [] \<and> length vs = length xs \<and>
        (\<forall>j<length xs. validateUser is_url (xs ! j) = Inr (vs ! j))"
    unfolding xs array_min1_JArr
    by (simp add: parse_elements_UserSchema split: if_splits)
next
  assume "\<exists>xs. users = JArr xs \<and> xs \<noteq> [] \<and> length vs = length xs \<and>
        (\<forall>j<length xs. validateUser is_url (xs ! j) = Inr (vs ! j))"
  then obtain xs where xs: "users = JArr xs" "xs \<noteq> []" "length vs = length xs"
     "\<forall>j<length xs. validateUser is_url (xs ! j) = Inr (vs ! j)" by blast
  then have "parse_elements (UserSchema is_url) [] 0 xs = Inr vs"
    by (simp add: parse_elements_UserSchema)
  with xs(1,2) show "validateUsers is_url users = Inr vs"
    by (simp add: validateUsers_def parse_Inr UsersArraySchema_def array_min1_JArr)
qed

lemma validateUsers_Inl:
  "validateUsers is_url users = Inl e \<Longrightarrow> \<exists>issues. e = ErrorInst (ZodError issues)"
  by (auto simp: validateUsers_def parse_Inl)

lemma promise_all_map:
  "(\<And>x. x \<in> set xs \<Longrightarrow> f x = Inr (g x)) \<Longrightarrow> promise_all (map f xs) = Inr (map g xs)"
  by (induction xs) auto

text \<open>
  The conversion of a user that a validation returned: the result holds that user, and
  its weather is null exactly when its second validation, its geocoding or its weather
  fetch failed.
\<close>

lemma convert_dist_validated:
  assumes "validateUser is_url x = Inr v"
  shows "\<exists>r. convertUserToUserWeatherData_dist is_url getCoordinates getCurrentWeather
               (json_of_User v) = Inr r \<and>
             user r = json_of_User v \<and>
             (weather r = None \<longleftrightarrow>
                isl (validateUser is_url (json_of_User v)) \<or>
                isl (getCoordinates (getLocationQuery v)) \<or>
                (\<exists>g. getCoordinates (getLocationQuery v) = Inr g \<and>
                     isl (getCurrentWeather (lat g) (lng g))))"
proof (cases "validateUser is_url (json_of_User v)")
  case (Inl e)
  then have "convertUserToUserWeatherData_dist is_url getCoordinates getCurrentWeather
               (json_of_User v) = Inr \<lparr>user = json_of_User v, weather = None\<rparr>"
    by (rule convert_dist_invalid)
  with Inl show ?thesis by simp
next
  case (Inr v')
  with assms have same: "v' = v" by (rule validateUser_again)
  have again: "validateUser is_url (json_of_User v) = Inr v" using Inr same by simp
  note eq = convert_dist_valid [OF again again, of getCoordinates getCurrentWeather]
  show ?thesis
  proof (cases "getCoordinates (getLocationQuery v)")
    case (Inl e)
    then show ?thesis unfolding eq by simp
  next
    case g: (Inr g)
    show ?thesis
    proof (cases "getCurrentWeather (lat g) (lng g)")
      case (Inl e)
      with g show ?thesis unfolding eq by simp
    next
      case (Inr w)
      with g again show ?thesis unfolding eq by simp
    qed
  qed
qed

text \<open>
  The validation of a list fails exactly when the argument is not a list, is the empty
  list, or holds an element whose own validation fails.
\<close>

lemma validateUsers_isl_iff:
  "isl (validateUsers is_url users) \<longleftrightarrow>
      (\<forall>xs. users \<noteq> JArr xs) \<or> users = JArr [] \<or>
      (\<exists>xs i. users = JArr xs \<and> i < length xs \<and> isl (validateUser is_url (xs ! i)))"
proof -
  have ok: "(\<exists>vs. validateUsers is_url users = Inr vs) \<longleftrightarrow>
      (\<exists>xs. users = JArr xs \<and> xs \<noteq> [] \<and>
         (\<forall>i<length xs. \<not> isl (validateUser is_url (xs ! i))))"
  proof
    assume "\<exists>vs. validateUsers is_url users = Inr vs"
    then obtain vs xs where "users = JArr xs" "xs \<noteq> []"
      "\<forall>j<length xs. validateUser is_url (xs ! j) = Inr (vs ! j)"
      unfolding validateUsers_Inr_iff by blast
    then show "\<exists>xs. users = JArr xs \<and> xs \<noteq> [] \<and>
         (\<forall>i<length xs. \<not> isl (validateUser is_url (xs ! i)))"
      by auto
  next
    assume "\<exists>xs. users = JArr xs \<and> xs \<noteq> [] \<and>
         (\<forall>i<length xs. \<not> isl (validateUser is_url (xs ! i)))"
    then obtain xs where xs: "users = JArr xs" "xs \<noteq> []"
      "\<forall>i<length xs. \<not> isl (validateUser is_url (xs ! i))" by blast
    let ?vs = "map (\<lambda>x. projr (validateUser is_url x)) xs"
    have "\<forall>j<length xs. validateUser is_url (xs ! j) = Inr (?vs ! j)"
      using xs(3) by (auto simp: isl_def)
    with xs(1,2) have "validateUsers is_url users = Inr ?vs"
      unfolding validateUsers_Inr_iff by simp
    then show "\<exists>vs. validateUsers is_url users = Inr vs" by blast
  qed
  have "isl (validateUsers is_url users) \<longleftrightarrow> \<not> (\<exists>vs. validateUsers is_url users = Inr vs)"
    by (cases "validateUsers is_url users") auto
  then show ?thesis unfolding ok by auto
qed

text \<open>
  C6 (as amended). The batch conversion validates the list first, and that validation
  fails exactly when the argument is not a list, is the empty list, or holds an element
  that is not a valid user. If it fails, the call fails with an Error that wraps the
  validation message, whatever the services would answer. Otherwise the result has the
  length of the input, and its \<open>i\<close>-th entry is the conversion of the \<open>i\<close>-th
  validated user alone: it holds that user, and its weather is null exactly when a step of
  that user's own conversion failed. No failure of a conversion makes the call fail.
\<close>

theorem convertUsers_batch:
  "(\<forall>e. validateUsers is_url users = Inl e \<longrightarrow>
      convertUsersToUserWeatherData is_url getCoordinates getCurrentWeather users =
        Inl (ErrorInst (PlainError (''Invalid users array: '' @ message (as_Error e))))) \<and>
   (isl (validateUsers is_url users) \<longleftrightarrow>
      (\<forall>xs. users \<noteq> JArr xs) \<or> users = JArr [] \<or>
      (\<exists>xs i. users = JArr xs \<and> i < length xs \<and> isl (validateUser is_url (xs ! i)))) \<and>
   (\<forall>vs. validateUsers is_url users = Inr vs \<longrightarrow>
      (\<exists>xs rs. users = JArr xs \<and>
         convertUsersToUserWeatherData is_url getCoordinates getCurrentWeather users = Inr rs \<and>
         length rs = length xs \<and>
         (\<forall>i<length xs.
            validateUser is_url (xs ! i) = Inr (vs ! i) \<and>
            convertUserToUserWeatherData_dist is_url getCoordinates getCurrentWeather
              (json_of_User (vs ! i)) = Inr (rs ! i) \<and>
            user (rs ! i) = json_of_User (vs ! i) \<and>
            (weather (rs ! i) = None \<longleftrightarrow>
               isl (validateUser is_url (json_of_User (vs ! i))) \<or>
               isl (getCoordinates (getLocationQuery (vs ! i))) \<or>
               (\<exists>g. getCoordinates (getLocationQuery (vs ! i)) = Inr g \<and>
                    isl (getCurrentWeather (lat g) (lng g)))))))"
proof (intro conjI allI impI)
  fix e assume "validateUsers is_url users = Inl e"
  then show "convertUsersToUserWeatherData is_url getCoordinates getCurrentWeather users =
        Inl (ErrorInst (PlainError (''Invalid users array: '' @ message (as_Error e))))"
    by (auto simp: convertUsersToUserWeatherData_def dest!: validateUsers_Inl)
next
  show "isl (validateUsers is_url users) \<longleftrightarrow>
      (\<forall>xs. users \<noteq> JArr xs) \<or> users = JArr [] \<or>
      (\<exists>xs i. users = JArr xs \<and> i < length xs \<and> isl (validateUser is_url (xs ! i)))"
    by (rule validateUsers_isl_iff)
next
  fix vs assume ok: "validateUsers is_url users = Inr vs"
  then obtain xs where xs: "users = JArr xs" "length vs = length xs"
    and each: "\<forall>j<length xs. validateUser is_url (xs ! j) = Inr (vs ! j)"
    unfolding validateUsers_Inr_iff by blast
  let ?f = "\<lambda>u. convertUserToUserWeatherData_dist is_url getCoordinates getCurrentWeather
                  (json_of_User u)"
  let ?rs = "map (\<lambda>u. projr (?f u)) vs"
  have one: "\<And>i. i < length xs \<Longrightarrow>
            ?f (vs ! i) = Inr (?rs ! i) \<and> user (?rs ! i) = json_of_User (vs ! i) \<and>
            (weather (?rs ! i) = None \<longleftrightarrow>
               isl (validateUser is_url (json_of_User (vs ! i))) \<or>
               isl (getCoordinates (getLocationQuery (vs ! i))) \<or>
               (\<exists>g. getCoordinates (getLocationQuery (vs ! i)) = Inr g \<and>
                    isl (getCurrentWeather (lat g) (lng g))))"
  proof -
    fix i assume i: "i < length xs"
    with each have "validateUser is_url (xs ! i) = Inr (vs ! i)" by blast
    from convert_dist_validated [OF this, of getCoordinates getCurrentWeather]
    obtain r where r: "?f (vs ! i) = Inr r" "user r = json_of_User (vs ! i)"
      "weather r = None \<longleftrightarrow>
               isl (validateUser is_url (json_of_User (vs ! i))) \<or>
               isl (getCoordinates (getLocationQuery (vs ! i))) \<or>
               (\<exists>g. getCoordinates (getLocationQuery (vs ! i)) = Inr g \<and>
                    isl (getCurrentWeather (lat g) (lng g)))"
      by (elim exE conjE) (rule that)
    from i xs(2) have "?rs ! i = projr (?f (vs ! i))" by simp
    with r(1) have "?rs ! i = r" by simp
    with r show "?f (vs ! i) = Inr (?rs ! i) \<and> user (?rs ! i) = json_of_User (vs ! i) \<and>
            (weather (?rs ! i) = None \<longleftrightarrow>
               isl (validateUser is_url (json_of_User (vs ! i))) \<or>
               isl (getCoordinates (getLocationQuery (vs ! i))) \<or>
               (\<exists>g. getCoordinates (getLocationQuery (vs ! i)) = Inr g \<and>
                    isl (getCurrentWeather (lat g) (lng g))))"
      by simp
  qed
  have "\<And>u. u \<in> set vs \<Longrightarrow> ?f u = Inr (projr (?f u))"
  proof -
    fix u assume "u \<in> set vs"
    then obtain i where i: "i < length vs" "vs ! i = u" by (auto simp: in_set_conv_nth)
    with xs(2) one [of i] show "?f u = Inr (projr (?f u))" by auto
  qed
  then have "promise_all (map ?f vs) = Inr ?rs" by (rule promise_all_map)
  with ok have result:
    "convertUsersToUserWeatherData is_url getCoordinates getCurrentWeather users = Inr ?rs"
    by (simp add: convertUsersToUserWeatherData_def)
  show "\<exists>xs rs. users = JArr xs \<and>
         convertUsersToUserWeatherData is_url getCoordinates getCurrentWeather users = Inr rs \<and>
         length rs = length xs \<and>
         (\<forall>i<length xs.
            validateUser is_url (xs ! i) = Inr (vs ! i) \<and>
            convertUserToUserWeatherData_dist is_url getCoordinates getCurrentWeather
              (json_of_User (vs ! i)) = Inr (rs ! i) \<and>
            user (rs ! i) = json_of_User (vs ! i) \<and>
            (weather (rs ! i) = None \<longleftrightarrow>
               isl (validateUser is_url (json_of_User (vs ! i))) \<or>
               isl (getCoordinates (getLocationQuery (vs ! i))) \<or>
               (\<exists>g. getCoordinates (getLocationQuery (vs ! i)) = Inr g \<and>
                    isl (getCurrentWeather (lat g) (lng g)))))"
    apply (rule exI [of _ xs])
    apply (rule exI [of _ ?rs])
    using xs result each one by simp
qed

text \<open>
  The example of the spec: of three users the second cannot be geocoded; the result has
  three entries, the second with a null weather and the others with a reading.
\<close>

lemma three_users_valid:
  "validateUsers http_url three_users =
     Inr [\<lparr>name = \<lparr>first = ''Alice'', last' = ''Johnson''\<rparr>,
           location = \<lparr>city = ''London'', country = ''United Kingdom''\<rparr>,
           picture = \<lparr>large = ''https://example.org/2.jpg''\<rparr>\<rparr>,
          \<lparr>name = \<lparr>first = ''Bob'', last' = ''Smith''\<rparr>,
           location = \<lparr>city = ''Atlantis'', country = ''Nowhere''\<rparr>,
           picture = \<lparr>large = ''https://example.org/3.jpg''\<rparr>\<rparr>,
          \<lparr>name = \<lparr>first = ''Carol'', last' = ''Jones''\<rparr>,
           location = \<lparr>city = ''Toronto'', country = ''Canada''\<rparr>,
           picture = \<lparr>large = ''https://example.org/4.jpg''\<rparr>\<rparr>]"
  by (simp add: three_users_def raw_user_def trim_def is_space_def
        validateUsers_def UsersArraySchema_def array_min1_def
        parse_def UserSchema_def UserNameSchema_def UserLocationSchema_def
        UserPictureSchema_def string_min1_trim_def string_url_def http_url_def)

theorem convertUsers_batch_witness:
  "\<not> isl (validateUsers http_url three_users) \<and>
   (\<exists>rs. convertUsersToUserWeatherData http_url geocoder_sample weather_sunny three_users = Inr rs \<and>
      length rs = 3 \<and>
      weather (rs ! 0) \<noteq> None \<and> weather (rs ! 1) = None \<and> weather (rs ! 2) \<noteq> None)"
proof -
  note valid = three_users_valid
  from convertUsers_batch [of http_url three_users geocoder_sample weather_sunny] valid
  obtain xs rs where xs: "three_users = JArr xs"
    and rs: "convertUsersToUserWeatherData http_url geocoder_sample weather_sunny three_users = Inr rs"
      "length rs = length xs"
    and each: "\<forall>i<length xs.
       (weather (rs ! i) = None \<longleftrightarrow>
          isl (validateUser http_url (json_of_User
            ([\<lparr>name = \<lparr>first = ''Alice'', last' = ''Johnson''\<rparr>,
           location = \<lparr>city = ''London'', country = ''United Kingdom''\<rparr>,
           picture = \<lparr>large = ''https://example.org/2.jpg''\<rparr>\<rparr>,
          \<lparr>name = \<lparr>first = ''Bob'', last' = ''Smith''\<rparr>,
           location = \<lparr>city = ''Atlantis'', country = ''Nowhere''\<rparr>,
           picture = \<lparr>large = ''https://example.org/3.jpg''\<rparr>\<rparr>,
          \<lparr>name = \<lparr>first = ''Carol'', last' = ''Jones''\<rparr>,
           location = \<lparr>city = ''Toronto'', country = ''Canada''\<rparr>,
           picture = \<lparr>large = ''https://example.org/4.jpg''\<rparr>\<rparr>] ! i))) \<or>
          isl (geocoder_sample (getLocationQuery
            ([\<lparr>name = \<lparr>first = ''Alice'', last' = ''Johnson''\<rparr>,
           location = \<lparr>city = ''London'', country = ''United Kingdom''\<rparr>,
           picture = \<lparr>large = ''https://example.org/2.jpg''\<rparr>\<rparr>,
          \<lparr>name = \<lparr>first = ''Bob'', last' = ''Smith''\<rparr>,
           location = \<lparr>city = ''Atlantis'', country = ''Nowhere''\<rparr>,
           picture = \<lparr>large = ''https://example.org/3.jpg''\<rparr>\<rparr>,
          \<lparr>name = \<lparr>first = ''Carol'', last' = ''Jones''\<rparr>,
           location = \<lparr>city = ''Toronto'', country = ''Canada''\<rparr>,
           picture = \<lparr>large = ''https://example.org/4.jpg''\<rparr>\<rparr>] ! i))))"
    by (auto simp: weather_sunny_def)
  from xs have len: "length xs = 3" by (auto simp: three_users_def)
  have w0: "weather (rs ! 0) \<noteq> None"
    using spec [OF each, of 0] len
    by (simp add: json_of_User_def trim_def is_space_def geocoder_sample_def getLocationQuery_def
        validateUser_def parse_def UserSchema_def UserNameSchema_def UserLocationSchema_def
        UserPictureSchema_def string_min1_trim_def string_url_def http_url_def)
  have w1: "weather (rs ! 1) = None"
    using spec [OF each, of 1] len
    by (simp add: geocoder_sample_def getLocationQuery_def)
  have w2: "weather (rs ! 2) \<noteq> None"
    using spec [OF each, of 2] len
    by (simp add: json_of_User_def trim_def is_space_def geocoder_sample_def getLocationQuery_def
        validateUser_def parse_def UserSchema_def UserNameSchema_def UserLocationSchema_def
        UserPictureSchema_def string_min1_trim_def string_url_def http_url_def)
  from valid rs len w0 w1 w2 show ?thesis by simp
qed

text \<open>
  C6 as stated fails: the claim names only an argument that is not a list or is empty as
  aborting the batch and promises a result of the input's length otherwise. A list of two
  elements of which the second is not a valid user is a non-empty list, and the call fails.
\<close>

theorem convertUsers_batch_counterexample:
  "isArray one_invalid_user \<and> one_invalid_user \<noteq> JArr [] \<and>
   isl (convertUsersToUserWeatherData http_url geocoder_sample weather_sunny one_invalid_user)"
  by (simp add: one_invalid_user_def raw_user_def trim_def is_space_def
        convertUsersToUserWeatherData_def validateUsers_def UsersArraySchema_def array_min1_def
        parse_def UserSchema_def UserNameSchema_def UserLocationSchema_def
        UserPictureSchema_def string_min1_trim_def string_url_def http_url_def show_nat.simps)

section \<open>User service: properties\<close>

text \<open>
  C8. The TypeScript \<open>getCachedUsers\<close> checks only that the cached array is not empty
  and that its first element has a truthy \<open>name\<close> and \<open>location\<close>. A cached value
  that fails the validation of a users list but passes this check is returned as it is,
  and the entry stays in the cache.
\<close>

theorem getCachedUsers_returns_corrupted:
  "isl (validateUsers http_url corrupted_entry) \<and>
   getCachedUsers (world_with corrupted_entry) =
     (Some [JObj [(''name'', JNum 1), (''location'', JNum 1)]], world_with corrupted_entry)"
  by (simp add: corrupted_entry_def world_with_def getCachedUsers_def getItem_def
        looks_like_users_def validateUsers_def UsersArraySchema_def array_min1_def parse_def
        UserSchema_def UserNameSchema_def UserLocationSchema_def UserPictureSchema_def
        string_url_def show_nat.simps)

theorem getCachedUsers_returns_corrupted_witness:
  "fst (getCachedUsers (world_with corrupted_entry)) \<noteq> None \<and>
   cache (snd (getCachedUsers (world_with corrupted_entry))) = Some corrupted_entry"
  using getCachedUsers_returns_corrupted by (simp add: world_with_def)

text \<open>
  The compiled variant does what the claim says for every cached value that is truthy:
  a value that fails the validation is removed and null is returned. A value that fails
  the validation is never returned.
\<close>

lemma safeValidateUsers_isl:
  "isl (safeValidateUsers is_url v) \<longleftrightarrow> isl (validateUsers is_url v)"
  by (simp add: safeValidateUsers_def validateUsers_def parse_def split: sum.splits)

lemma getCachedUsers_dist_invalid:
  "cache w = Some v \<Longrightarrow> truthy v \<Longrightarrow> isl (validateUsers is_url v) \<Longrightarrow>
   getCachedUsers_dist is_url w = (None, removeItem w)"
  using safeValidateUsers_isl [of is_url v]
  by (auto simp: getCachedUsers_dist_def getItem_def split: sum.splits)

lemma getCachedUsers_dist_never_corrupted:
  "isl (validateUsers is_url (getItem w)) \<Longrightarrow> fst (getCachedUsers_dist is_url w) = None"
  using safeValidateUsers_isl [of is_url "getItem w"]
  by (cases "safeValidateUsers is_url (getItem w)") (auto simp: getCachedUsers_dist_def Let_def)

text \<open>A cached value that is valid passes the check of the TypeScript \<open>getCachedUsers\<close>.\<close>

lemma valid_looks_like_users:
  assumes "validateUsers is_url v = Inr vs"
  shows "\<exists>xs. v = JArr xs \<and> length xs = length vs \<and> looks_like_users xs = Inr True"
proof -
  from assms obtain xs where xs: "v = JArr xs" "xs \<noteq> []" "length vs = length xs"
    "\<forall>j<length xs. validateUser is_url (xs ! j) = Inr (vs ! j)"
    unfolding validateUsers_Inr_iff by blast
  then have "validateUser is_url (xs ! 0) = Inr (vs ! 0)" by simp
  then obtain kvs n l where "xs ! 0 = JObj kvs" "map_of kvs ''name'' = Some (JObj n)"
    "map_of kvs ''location'' = Some (JObj l)"
    unfolding validateUser_Inr_iff string_at_two by auto
  with xs(2) have "looks_like_users xs = Inr True"
    by (simp add: looks_like_users_def)
  with xs show ?thesis by simp
qed

text \<open>
  What \<open>getUsers\<close> does guarantee. A cached value that is valid and has at least \<open>count\<close>
  entries is answered from the cache: the first \<open>count\<close> cached entries are returned,
  and the world is unchanged, so no request was sent.
\<close>

lemma getUsers_cache_hit:
  assumes "cache w = Some v" and "validateUsers (url_ok env) v = Inr vs" and "count \<le> length vs"
  shows "\<exists>xs. v = JArr xs \<and> getUsers env count w = (Inr (take count xs), w, [])"
proof -
  from valid_looks_like_users [OF assms(2)]
  obtain xs where xs: "v = JArr xs" "length xs = length vs" "looks_like_users xs = Inr True"
    by blast
  with assms(1) have "getCachedUsers w = (Some xs, w)"
    by (simp add: getCachedUsers_def getItem_def)
  with assms(3) xs show ?thesis by (simp add: getUsers_def)
qed

text \<open>
  With no cache entry, or with a cached array shorter than \<open>count\<close>, the users are
  fetched: the result is that of \<open>fetchFreshUsers\<close>.
\<close>

lemma getUsers_absent:
  "cache w = None \<Longrightarrow>
   getUsers env count w =
     (case fetchFreshUsers env count w of
        (Inl e, w2, evs) \<Rightarrow> (Inl e, w2, evs)
      | (Inr us, w2, evs) \<Rightarrow> (Inr (map json_of_User us), w2, evs))"
  by (simp add: getUsers_def getCachedUsers_def getItem_def)

lemma getUsers_short:
  "cache w = Some (JArr xs) \<Longrightarrow> length xs < count \<Longrightarrow>
   \<exists>w1. (w1 = w \<or> w1 = removeItem w) \<and>
     getUsers env count w =
       (case fetchFreshUsers env count w1 of
          (Inl e, w2, evs) \<Rightarrow> (Inl e, w2, evs)
        | (Inr us, w2, evs) \<Rightarrow> (Inr (map json_of_User us), w2, evs))"
  by (cases "looks_like_users xs")
     (auto simp: getUsers_def getCachedUsers_def getItem_def split: bool.splits)

text \<open>
  C7. The claim requires a fresh fetch when the cached value is invalid. With the cached
  value that \<open>getCachedUsers\<close> lets through, \<open>getUsers\<close> answers from the cache: it
  returns the invalid entry, and the world is unchanged, so no request was sent.
\<close>

theorem getUsers_serves_corrupted:
  "isl (validateUsers (url_ok sample_env) corrupted_entry) \<and>
   getUsers sample_env 1 (world_with corrupted_entry) =
     (Inr [JObj [(''name'', JNum 1), (''location'', JNum 1)]], world_with corrupted_entry, [])"
  by (simp add: corrupted_entry_def world_with_def getUsers_def getCachedUsers_def getItem_def
        looks_like_users_def validateUsers_def UsersArraySchema_def array_min1_def parse_def
        UserSchema_def UserNameSchema_def UserLocationSchema_def UserPictureSchema_def
        string_url_def show_nat.simps sample_env_def)

text \<open>
  What holds of the state before a retried call and is kept by every invocation of the
  operation holds of the state after the call; for a call that fails, it is enough that
  the failing invocations keep it.
\<close>

lemma state_after_invariant:
  assumes "\<And>s. P s \<Longrightarrow> P (snd (operation s))" and "P s"
  shows "P (state_after operation s k)"
  using assms by (induction k) simp_all

lemma state_after_failures_invariant:
  assumes "\<And>s. P s \<Longrightarrow> isl (fst (operation s)) \<Longrightarrow> P (snd (operation s))" and "P s"
    and "\<forall>i<k. isl (fst (operation (state_after operation s i)))"
  shows "P (state_after operation s k)"
  using assms(3)
proof (induction k)
  case 0
  then show ?case using assms(2) by simp
next
  case (Suc k)
  then have "P (state_after operation s k)" by simp
  moreover from Suc.prems have "isl (fst (operation (state_after operation s k)))" by simp
  ultimately show ?case using assms(1) by simp
qed

lemma retry_invariant:
  assumes "\<And>s. P s \<Longrightarrow> P (snd (operation s))" and "P s"
  shows "P (fst (snd (retryApiCall operation options operationName s)))"
proof (cases "1 \<le> maxAttempts options")
  case True
  from retry_loop_char [OF True, of operation s operationName "PlainError ''Unknown error''"]
  obtain m where
    "fst (snd (retry_loop operation options operationName 1 (PlainError ''Unknown error'') s)) =
       state_after operation s (Suc m)"
    by fastforce
  then show ?thesis
    unfolding retryApiCall_def using state_after_invariant [of P operation s "Suc m"] assms
    by simp
next
  case False
  then show ?thesis using assms(2) by (simp add: retryApiCall_def retry_loop.simps)
qed

lemma retry_failure_invariant:
  assumes "\<And>s. P s \<Longrightarrow> isl (fst (operation s)) \<Longrightarrow> P (snd (operation s))" and "P s"
    and "isl (fst (retryApiCall operation options operationName s))"
  shows "P (fst (snd (retryApiCall operation options operationName s)))"
proof (cases "1 \<le> maxAttempts options")
  case True
  from retry_loop_char [OF True, of operation s operationName "PlainError ''Unknown error''"]
  obtain m where m: "\<forall>i<m. isl (fst (operation (state_after operation s i)))"
    "fst (retry_loop operation options operationName 1 (PlainError ''Unknown error'') s) =
       (case fst (operation (state_after operation s m)) of
             Inr v \<Rightarrow> Inr v | Inl e \<Rightarrow> Inl (ErrorInst (as_Error e)))"
    "fst (snd (retry_loop operation options operationName 1 (PlainError ''Unknown error'') s)) =
       state_after operation s (Suc m)"
    by fastforce
  from assms(3) m(2) have "isl (fst (operation (state_after operation s m)))"
    by (auto simp: retryApiCall_def split: sum.splits)
  with m(1) have "\<forall>i<Suc m. isl (fst (operation (state_after operation s i)))"
    by (simp add: less_Suc_eq)
  from state_after_failures_invariant [of P operation s "Suc m", OF assms(1) assms(2) this]
  show ?thesis unfolding retryApiCall_def m(3) by simp
next
  case False
  then show ?thesis using assms(2) by (simp add: retryApiCall_def retry_loop.simps)
qed

text \<open>The fetch helper records one request and throws Error instances only.\<close>

lemma fetchData_world:
  "snd (fetchData fetch url errorMessage w) =
     w\<lparr>fetches := Suc (fetches w), trace := trace w @ [Fetched url]\<rparr>"
  by (simp add: fetchData_def Let_def split: sum.splits http_response.splits)

lemma fetchData_Inl:
  "fst (fetchData fetch url errorMessage w) = Inl e \<Longrightarrow> \<exists>x. e = ErrorInst x"
  by (auto simp: fetchData_def Let_def split: sum.splits http_response.splits)

lemma fetchFreshUsers_catch_Error:
  "\<exists>y. fetchFreshUsers_catch (ErrorInst x) = ErrorInst y"
  by (cases x) simp_all

text \<open>
  An invocation of the retried operation that fails leaves the cache as it was and throws
  an Error instance; every invocation only adds to the trace.
\<close>

lemma operation_failure:
  assumes "isl (fst (fetchFreshUsers_operation env count w))"
  shows "cache (snd (fetchFreshUsers_operation env count w)) = cache w \<and>
         (\<exists>x. fst (fetchFreshUsers_operation env count w) = Inl (ErrorInst x))"
proof -
  let ?url = "''https://randomuser.me/api/?results='' @ show_nat count @
                ''&inc=name,location,picture''"
  obtain r w' where f: "fetchData (network env) ?url ''Failed to fetch users from API'' w = (r, w')"
    by (cases "fetchData (network env) ?url ''Failed to fetch users from API'' w")
  from fetchData_world [of "network env" ?url "''Failed to fetch users from API''" w] f
  have w': "w' = w\<lparr>fetches := Suc (fetches w), trace := trace w @ [Fetched ?url]\<rparr>" by simp
  show ?thesis
  proof (cases r)
    case (Inl e)
    with fetchData_Inl [of "network env" ?url "''Failed to fetch users from API''" w e] f
    obtain x where "e = ErrorInst x" by auto
    with Inl f w' fetchFreshUsers_catch_Error [of x] show ?thesis
      by (auto simp: fetchFreshUsers_operation_def)
  next
    case (Inr rawData)
    show ?thesis
    proof (cases "validateApiResponse (url_ok env) rawData")
      case (Inl e)
      then obtain issues where "e = ErrorInst (ZodError issues)"
        by (auto simp: validateApiResponse_def parse_Inl)
      with Inl Inr f w' show ?thesis by (simp add: fetchFreshUsers_operation_def)
    next
      case ok: (Inr validatedResponse)
      with Inr f assms show ?thesis by (simp add: fetchFreshUsers_operation_def Let_def)
    qed
  qed
qed

lemma operation_trace:
  "\<exists>more. trace (snd (fetchFreshUsers_operation env count w)) = trace w @ more"
  using fetchData_world [of "network env" "''https://randomuser.me/api/?results='' @ show_nat count @
                ''&inc=name,location,picture''" "''Failed to fetch users from API''" w]
  by (auto simp: fetchFreshUsers_operation_def Let_def setItem_def split: prod.splits sum.splits)

text \<open>
  C9. \<open>fetchFreshUsers\<close> removes the cache entry first: the removal is the first event
  of the call, before any request. When the call fails, no cache entry is left; and when
  every attempt of the budget fails, the call fails with what the final attempt threw.
\<close>

theorem fetchFreshUsers_invalidates_first:
  "(\<exists>more. trace (fst (snd (fetchFreshUsers env count w))) = trace w @ CacheRemoved # more) \<and>
   (isl (fst (fetchFreshUsers env count w)) \<longrightarrow>
      cache (fst (snd (fetchFreshUsers env count w))) = None) \<and>
   (1 \<le> DEFAULT_RETRY_ATTEMPTS env \<and>
    list_all (\<lambda>k. isl (outcome (fetchFreshUsers_operation env count) (removeItem w) k))
      [1..<Suc (nat (DEFAULT_RETRY_ATTEMPTS env))] \<longrightarrow>
      fst (fetchFreshUsers env count w) =
        outcome (fetchFreshUsers_operation env count) (removeItem w)
          (nat (DEFAULT_RETRY_ATTEMPTS env)))"
proof (intro conjI impI)
  let ?op = "fetchFreshUsers_operation env count"
  let ?options = "\<lparr>maxAttempts = DEFAULT_RETRY_ATTEMPTS env,
        baseDelay = DEFAULT_RETRY_DELAY env, maxDelay = 5000\<rparr>"
  have "\<And>s. (\<exists>more. trace s = trace w @ CacheRemoved # more) \<Longrightarrow>
            (\<exists>more. trace (snd (?op s)) = trace w @ CacheRemoved # more)"
    using operation_trace [of env count] by (metis append.assoc append_Cons)
  moreover have "\<exists>more. trace (removeItem w) = trace w @ CacheRemoved # more"
    by (simp add: removeItem_def)
  ultimately show "\<exists>more. trace (fst (snd (fetchFreshUsers env count w))) =
                     trace w @ CacheRemoved # more"
    unfolding fetchFreshUsers_def
    by (rule retry_invariant [where P = "\<lambda>s. \<exists>more. trace s = trace w @ CacheRemoved # more"])
next
  let ?op = "fetchFreshUsers_operation env count"
  assume failed: "isl (fst (fetchFreshUsers env count w))"
  have "\<And>s. cache s = None \<Longrightarrow> isl (fst (?op s)) \<Longrightarrow> cache (snd (?op s)) = None"
    using operation_failure [of env count] by simp
  moreover have "cache (removeItem w) = None" by (simp add: removeItem_def)
  ultimately show "cache (fst (snd (fetchFreshUsers env count w))) = None"
    using failed unfolding fetchFreshUsers_def
    by (rule retry_failure_invariant [where P = "\<lambda>s. cache s = None"])
next
  let ?op = "fetchFreshUsers_operation env count"
  let ?n = "nat (DEFAULT_RETRY_ATTEMPTS env)"
  assume h: "1 \<le> DEFAULT_RETRY_ATTEMPTS env \<and>
    list_all (\<lambda>k. isl (outcome ?op (removeItem w) k)) [1..<Suc ?n]"
  then have "1 \<le> ?n" by linarith
  then have "?n \<in> set [1..<Suc ?n]" by simp
  with h have "isl (outcome ?op (removeItem w) ?n)" unfolding list_all_iff by blast
  then obtain x where x: "outcome ?op (removeItem w) ?n = Inl (ErrorInst x)"
    unfolding outcome_def using operation_failure [of env count] by blast
  from h have
    "fst (fetchFreshUsers env count w) =
       Inl (ErrorInst (as_Error (projl (outcome ?op (removeItem w) ?n))))"
    unfolding fetchFreshUsers_def
    using retry_exhausted [of "\<lparr>maxAttempts = DEFAULT_RETRY_ATTEMPTS env,
        baseDelay = DEFAULT_RETRY_DELAY env, maxDelay = 5000\<rparr>" ?op "removeItem w"
        "''User API with validation''"]
    by simp
  with x show "fst (fetchFreshUsers env count w) = outcome ?op (removeItem w) ?n" by simp
qed

text \<open>
  With a network on which every request fails and three attempts, a call made while a
  valid entry is cached removes the entry, sends three requests with sleeps of 1000 and
  2000 between them, and fails with the error of the last request; no entry is left.
\<close>

lemma fetchFreshUsers_example:
  "fetchFreshUsers sample_env 5 (world_with valid_entry) =
     (Inl (ErrorInst (PlainError ''Failed to fetch'')),
      \<lparr>cache = None, fetches = 3,
       trace = [CacheRemoved,
                Fetched ''https://randomuser.me/api/?results=5&inc=name,location,picture'',
                Fetched ''https://randomuser.me/api/?results=5&inc=name,location,picture'',
                Fetched ''https://randomuser.me/api/?results=5&inc=name,location,picture'']\<rparr>,
      [Invoked 1, Warned ''User API with validation'' 1 1000 ''Failed to fetch'', Slept 1000,
       Invoked 2, Warned ''User API with validation'' 2 2000 ''Failed to fetch'', Slept 2000,
       Invoked 3, GaveUp ''User API with validation'' 3 ''Failed to fetch''])"
  by (simp add: fetchFreshUsers_def retryApiCall_def retry_loop.simps sample_env_def
        world_with_def removeItem_def fetchFreshUsers_operation_def fetchData_def
        network_down_def show_nat.simps digit_char_def Let_def)

theorem fetchFreshUsers_invalidates_first_witness:
  "1 \<le> DEFAULT_RETRY_ATTEMPTS sample_env \<and>
   cache (world_with valid_entry) = Some valid_entry \<and>
   isl (fst (fetchFreshUsers sample_env 5 (world_with valid_entry))) \<and>
   cache (fst (snd (fetchFreshUsers sample_env 5 (world_with valid_entry)))) = None"
proof -
  have failed: "isl (fst (fetchFreshUsers sample_env 5 (world_with valid_entry)))"
    by (simp add: fetchFreshUsers_example)
  from fetchFreshUsers_invalidates_first [of sample_env 5 "world_with valid_entry"] failed
  have "cache (fst (snd (fetchFreshUsers sample_env 5 (world_with valid_entry)))) = None"
    by blast
  with failed show ?thesis by (simp add: sample_env_def world_with_def)
qed

text \<open>
  A call of \<open>fetchFreshUsers\<close> that succeeds leaves the users it returns in the cache.
\<close>

lemma operation_success:
  "fst (fetchFreshUsers_operation env count w) = Inr us \<Longrightarrow>
   cache (snd (fetchFreshUsers_operation env count w)) = Some (JArr (map json_of_User us))"
  by (auto simp: fetchFreshUsers_operation_def Let_def setItem_def split: prod.splits sum.splits)

lemma fetchFreshUsers_success_caches:
  assumes "fst (fetchFreshUsers env count w) = Inr us"
  shows "cache (fst (snd (fetchFreshUsers env count w))) = Some (JArr (map json_of_User us))"
proof (cases "1 \<le> DEFAULT_RETRY_ATTEMPTS env")
  case True
  let ?op = "fetchFreshUsers_operation env count"
  let ?options = "\<lparr>maxAttempts = DEFAULT_RETRY_ATTEMPTS env,
        baseDelay = DEFAULT_RETRY_DELAY env, maxDelay = 5000\<rparr>"
  from True have "1 \<le> maxAttempts ?options" by simp
  from retry_loop_char [OF this, of ?op "removeItem w" "''User API with validation''"
    "PlainError ''Unknown error''"]
  obtain m where m:
    "fst (retry_loop ?op ?options ''User API with validation'' 1 (PlainError ''Unknown error'')
           (removeItem w)) =
       (case fst (?op (state_after ?op (removeItem w) m)) of
             Inr v \<Rightarrow> Inr v | Inl e \<Rightarrow> Inl (ErrorInst (as_Error e)))"
    "fst (snd (retry_loop ?op ?options ''User API with validation'' 1 (PlainError ''Unknown error'')
           (removeItem w))) =
       state_after ?op (removeItem w) (Suc m)"
    by fastforce
  from assms m(1) have "fst (?op (state_after ?op (removeItem w) m)) = Inr us"
    by (auto simp: fetchFreshUsers_def retryApiCall_def split: sum.splits)
  from operation_success [OF this] show ?thesis
    unfolding fetchFreshUsers_def retryApiCall_def m(2) by simp
next
  case False
  with assms show ?thesis
    by (simp add: fetchFreshUsers_def retryApiCall_def retry_loop.simps)
qed

end
